theory Spec2Isabelle
  imports Main "HOL-Library.Char_ord" "HOL-Library.List_Lexorder" "HOL-Library.AList"
begin

section \<open>Strings as Python has them\<close>

text \<open>
  A Python \<open>str\<close> is modelled as a \<^typ>\<open>string\<close>, each \<^typ>\<open>char\<close> standing for one
  code point below 256. The functions of this section follow the methods of \<open>str\<close> that
  \<open>run_pipeline.py\<close> calls.
\<close>

definition is_space :: "char \<Rightarrow> bool" where
  \<comment> \<open>\<open>str.isspace\<close> on one character: TAB..CR, FS..US, space, NEL, NBSP\<close>
  "is_space c = (let n = (of_char c :: nat) in
     (9 \<le> n \<and> n \<le> 13) \<or> (28 \<le> n \<and> n \<le> 32) \<or> n = 133 \<or> n = 160)"

definition lstrip :: "string \<Rightarrow> string" where
  "lstrip s = dropWhile is_space s"

definition rstrip :: "string \<Rightarrow> string" where
  "rstrip s = rev (dropWhile is_space (rev s))"

definition strip :: "string \<Rightarrow> string" where
  "strip s = lstrip (rstrip s)"

definition strip_char :: "char \<Rightarrow> string \<Rightarrow> string" where
  \<comment> \<open>\<open>s.strip(c)\<close> for a one-character argument\<close>
  "strip_char c s = dropWhile (\<lambda>x. x = c) (rev (dropWhile (\<lambda>x. x = c) (rev s)))"

definition startswith :: "string \<Rightarrow> string \<Rightarrow> bool" where
  \<comment> \<open>\<open>s.startswith(p)\<close>, the prefix first\<close>
  "startswith p s = (take (length p) s = p)"

definition endswith :: "string \<Rightarrow> string \<Rightarrow> bool" where
  \<comment> \<open>\<open>s.endswith(p)\<close>, the suffix first\<close>
  "endswith p s = (length p \<le> length s \<and> drop (length s - length p) s = p)"

fun find_sub :: "string \<Rightarrow> string \<Rightarrow> nat option" where
  \<comment> \<open>\<open>s.find(sub)\<close>: the least index at which \<open>sub\<close> occurs in \<open>s\<close>\<close>
  "find_sub sub [] = (if sub = [] then Some 0 else None)"
| "find_sub sub (c # cs) =
     (if startswith sub (c # cs) then Some 0
      else map_option Suc (find_sub sub cs))"

definition contains :: "string \<Rightarrow> string \<Rightarrow> bool" where
  \<comment> \<open>\<open>sub in s\<close>\<close>
  "contains sub s = (find_sub sub s \<noteq> None)"

definition split_once :: "string \<Rightarrow> string \<Rightarrow> string list" where
  \<comment> \<open>\<open>s.split(sep, 1)\<close> for a non-empty separator\<close>
  "split_once sep s =
     (case find_sub sep s of
        None \<Rightarrow> [s]
      | Some i \<Rightarrow> [take i s, drop (i + length sep) s])"

fun join :: "string \<Rightarrow> string list \<Rightarrow> string" where
  \<comment> \<open>\<open>sep.join(xs)\<close>\<close>
  "join sep [] = []"
| "join sep [x] = x"
| "join sep (x # y # ys) = x @ sep @ join sep (y # ys)"

definition is_linebreak :: "char \<Rightarrow> bool" where
  \<comment> \<open>the one-character line boundaries of \<open>str.splitlines\<close> below 256\<close>
  "is_linebreak c = (let n = (of_char c :: nat) in
     (10 \<le> n \<and> n \<le> 13) \<or> (28 \<le> n \<and> n \<le> 30) \<or> n = 133)"

fun splitlines_from :: "string \<Rightarrow> string \<Rightarrow> string list" where
  \<comment> \<open>second argument: the characters of the current line, the last one first\<close>
  "splitlines_from [] cur = (if cur = [] then [] else [rev cur])"
| "splitlines_from (c # cs) cur =
     (if c = CHR 0x0D \<and> cs \<noteq> [] \<and> hd cs = CHR 0x0A
        then rev cur # splitlines_from (tl cs) []
      else if is_linebreak c then rev cur # splitlines_from cs []
      else splitlines_from cs (c # cur))"

definition splitlines :: "string \<Rightarrow> string list" where
  "splitlines s = splitlines_from s []"

definition lower_char :: "char \<Rightarrow> char" where
  \<comment> \<open>\<open>str.lower\<close> on one character below 256\<close>
  "lower_char c = (let n = (of_char c :: nat) in
     if (65 \<le> n \<and> n \<le> 90) \<or> (192 \<le> n \<and> n \<le> 222 \<and> n \<noteq> 215)
     then char_of (n + 32) else c)"

definition lower :: "string \<Rightarrow> string" where
  "lower s = map lower_char s"

section \<open>Errors\<close>

text \<open>
  Every exception the pipeline can raise is a value. \<open>ValueError\<close> and \<open>RuntimeError\<close>
  carry their message where the source builds one that matters.
\<close>

datatype error =
    ValueError string
  | RuntimeError string
  | KeyError string
  | TypeError
  | AttributeError
  | FileNotFoundError
  | FileExistsError
  | IsADirectoryError
  | NotADirectoryError
  | SameFileError

section \<open>The template parser\<close>

subsection \<open>\<open>shlex.split\<close>\<close>

text \<open>
  \<open>shlex.split(s)\<close> runs the standard library's lexer in POSIX mode with
  \<open>whitespace_split\<close> set and no comment characters. Its state is \<open>' '\<close> (between
  tokens), \<open>'a'\<close> (in a word), a quote character (in a quoted part) or the escape
  character together with the state to return to.
\<close>

datatype lex_state =
    InSpace
  | InWord
  | InQuote char
  | InEscape "char option"  \<comment> \<open>\<open>None\<close>: escaped in a word; \<open>Some q\<close>: inside the quote \<open>q\<close>\<close>

definition shlex_whitespace :: "char \<Rightarrow> bool" where
  "shlex_whitespace c = (c = CHR '' '' \<or> c = CHR 0x09 \<or> c = CHR 0x0D \<or> c = CHR 0x0A)"

definition shlex_quote_char :: "char \<Rightarrow> bool" where
  "shlex_quote_char c = (c = CHR 0x27 \<or> c = CHR 0x22)"

fun shlex_run :: "lex_state \<Rightarrow> string \<Rightarrow> string \<Rightarrow> error + string list" where
  "shlex_run InSpace tok [] = Inr []"
| "shlex_run InWord tok [] = Inr [tok]"
| "shlex_run (InQuote q) tok [] = Inl (ValueError ''No closing quotation'')"
| "shlex_run (InEscape e) tok [] = Inl (ValueError ''No escaped character'')"
| "shlex_run InSpace tok (c # cs) =
     (if shlex_whitespace c then shlex_run InSpace [] cs
      else if c = CHR 0x5C then shlex_run (InEscape None) [] cs
      else if shlex_quote_char c then shlex_run (InQuote c) [] cs
      else shlex_run InWord [c] cs)"
| "shlex_run InWord tok (c # cs) =
     (if shlex_whitespace c then
        (case shlex_run InSpace [] cs of Inl e \<Rightarrow> Inl e | Inr ts \<Rightarrow> Inr (tok # ts))
      else if shlex_quote_char c then shlex_run (InQuote c) tok cs
      else if c = CHR 0x5C then shlex_run (InEscape None) tok cs
      else shlex_run InWord (tok @ [c]) cs)"
| "shlex_run (InQuote q) tok (c # cs) =
     (if c = q then shlex_run InWord tok cs
      else if c = CHR 0x5C \<and> q = CHR 0x22 then shlex_run (InEscape (Some q)) tok cs
      else shlex_run (InQuote q) (tok @ [c]) cs)"
| "shlex_run (InEscape None) tok (c # cs) = shlex_run InWord (tok @ [c]) cs"
| "shlex_run (InEscape (Some q)) tok (c # cs) =
     (if c \<noteq> CHR 0x5C \<and> c \<noteq> q then shlex_run (InQuote q) (tok @ [CHR 0x5C, c]) cs
      else shlex_run (InQuote q) (tok @ [c]) cs)"

definition shlex_split :: "string \<Rightarrow> error + string list" where
  "shlex_split s = shlex_run InSpace [] s"

subsection \<open>\<open>parse_codex_template\<close>\<close>

fun export_env_of :: "string list \<Rightarrow> (string \<rightharpoonup> string) \<Rightarrow> (string \<rightharpoonup> string)" where
  \<comment> \<open>the first loop: \<open>export KEY=value\<close> lines, a later line overwriting an earlier one\<close>
  "export_env_of [] env = env"
| "export_env_of (ln # lns) env =
     (let stripped = strip ln in
      if startswith ''export '' stripped \<and> contains ''='' stripped then
        (let body = split_once ''export '' stripped ! 1;
             kv = split_once ''='' body;
             key = kv ! 0; val = kv ! 1
         in export_env_of lns
              (env(strip key \<mapsto> strip_char (CHR 0x27) (strip_char (CHR 0x22) (strip val)))))
      else export_env_of lns env)"

fun find_cmd_start :: "string list \<Rightarrow> nat option" where
  \<comment> \<open>the index of the first line containing \<open>codex exec\<close>\<close>
  "find_cmd_start [] = None"
| "find_cmd_start (ln # lns) =
     (if contains ''codex exec'' ln then Some 0 else map_option Suc (find_cmd_start lns))"

fun merge_lines :: "string list \<Rightarrow> string list" where
  \<comment> \<open>the loop over \<open>lines[cmd_start:]\<close>: blank lines skipped, a line ending in a
      backslash appended without it, the first other line appended and the loop left\<close>
  "merge_lines [] = []"
| "merge_lines (ln # lns) =
     (let stripped = strip ln in
      if stripped = [] then merge_lines lns
      else if endswith [CHR 0x5C] stripped then strip (butlast stripped) # merge_lines lns
      else [stripped])"

definition strip_placeholder :: "string list \<Rightarrow> string list" where
  \<comment> \<open>\<open>if cmd_tokens and not cmd_tokens[-1].startswith("-"): cmd_tokens = cmd_tokens[:-1]\<close>\<close>
  "strip_placeholder toks =
     (if toks \<noteq> [] \<and> \<not> startswith ''-'' (last toks) then butlast toks else toks)"

definition command_tokens :: "string \<Rightarrow> error + string list" where
  \<comment> \<open>from the joined command text to the validated token list\<close>
  "command_tokens cmd_str =
     (case shlex_split cmd_str of
        Inl e \<Rightarrow> Inl e
      | Inr toks \<Rightarrow>
          if length toks < 2 \<or> toks ! 0 \<noteq> ''codex'' \<or> toks ! 1 \<noteq> ''exec''
          then Inl (ValueError (''Failed to parse codex command: '' @ cmd_str))
          else Inr toks)"

definition template_lines :: "string \<Rightarrow> string list" where
  \<comment> \<open>\<open>[ln.rstrip() for ln in text.splitlines()]\<close>\<close>
  "template_lines text = map rstrip (splitlines text)"

definition template_tokens :: "string \<Rightarrow> error + string list" where
  \<comment> \<open>the token list of the template before the placeholder is dropped\<close>
  "template_tokens text =
     (let lines = template_lines text in
      case find_cmd_start lines of
        None \<Rightarrow> Inl (ValueError ''No codex exec command found'')
      | Some i \<Rightarrow> command_tokens (join '' '' (merge_lines (drop i lines))))"

definition parse_codex_template :: "string \<Rightarrow> error + (string \<rightharpoonup> string) \<times> string list" where
  \<comment> \<open>the argument is the text read from the template file\<close>
  "parse_codex_template text =
     (let export_env = export_env_of (template_lines text) Map.empty in
      case template_tokens text of
        Inl e \<Rightarrow> Inl e
      | Inr cmd_tokens \<Rightarrow> Inr (export_env, strip_placeholder cmd_tokens))"

definition open_continuation :: "string \<Rightarrow> bool" where
  \<comment> \<open>a marker line exists and every line from it to the end ends in a backslash\<close>
  "open_continuation text =
     (case find_cmd_start (template_lines text) of
        None \<Rightarrow> False
      | Some i \<Rightarrow> list_all (\<lambda>ln. endswith [CHR 0x5C] (strip ln)) (drop i (template_lines text)))"

section \<open>Paths\<close>

text \<open>
  A \<open>pathlib.Path\<close> on POSIX is the tuple of its parts: the root (\<open>/\<close>, or \<open>//\<close>
  for exactly two leading slashes) when there is one, then the components that are
  neither empty nor a single dot. Two paths are equal when their parts are, and they
  are ordered as their parts are, each part compared character by character.
\<close>

type_synonym path = "string list"

fun split_char :: "char \<Rightarrow> string \<Rightarrow> string \<Rightarrow> string list" where
  \<comment> \<open>\<open>s.split(c)\<close>; second argument: the current field, the last character first\<close>
  "split_char sep cur [] = [rev cur]"
| "split_char sep cur (c # cs) =
     (if c = sep then rev cur # split_char sep [] cs else split_char sep (c # cur) cs)"

definition path_root :: "string \<Rightarrow> string" where
  "path_root s =
     (if startswith ''//'' s \<and> \<not> startswith ''///'' s then ''//''
      else if startswith ''/'' s then ''/'' else [])"

definition Path :: "string \<Rightarrow> path" where
  "Path s =
     (if path_root s = [] then [] else [path_root s])
     @ filter (\<lambda>x. x \<noteq> [] \<and> x \<noteq> ''.'') (split_char (CHR ''/'') [] s)"

definition is_absolute :: "path \<Rightarrow> bool" where
  "is_absolute p = (p \<noteq> [] \<and> (hd p = ''/'' \<or> hd p = ''//''))"

definition path_join :: "path \<Rightarrow> path \<Rightarrow> path" where
  \<comment> \<open>\<open>a / b\<close>: an absolute right operand replaces the left one\<close>
  "path_join a b = (if is_absolute b then b else a @ b)"

definition path_name :: "path \<Rightarrow> string" where
  \<comment> \<open>\<open>p.name\<close>: the final component, empty for a path that is only a root or is empty\<close>
  "path_name p = (if p = [] \<or> (length p = 1 \<and> is_absolute p) then [] else last p)"

fun rfind_char :: "char \<Rightarrow> string \<Rightarrow> nat option" where
  \<comment> \<open>\<open>s.rfind(c)\<close>\<close>
  "rfind_char c [] = None"
| "rfind_char c (x # xs) =
     (case rfind_char c xs of
        Some i \<Rightarrow> Some (Suc i)
      | None \<Rightarrow> if x = c then Some 0 else None)"

definition suffix_of :: "string \<Rightarrow> string" where
  \<comment> \<open>\<open>p.suffix\<close> from \<open>p.name\<close>: from the last dot on, unless that dot is the first or
      the last character of the name\<close>
  "suffix_of name =
     (case rfind_char (CHR ''.'') name of
        None \<Rightarrow> []
      | Some i \<Rightarrow> if 0 < i \<and> i < length name - 1 then drop i name else [])"

definition path_str :: "path \<Rightarrow> string" where
  \<comment> \<open>\<open>str(p)\<close>\<close>
  "path_str p =
     (if p = [] then ''.''
      else if is_absolute p then hd p @ join ''/'' (tl p)
      else join ''/'' p)"

section \<open>The change detector: the status listing\<close>

definition status_payload :: "string \<Rightarrow> string" where
  \<comment> \<open>\<open>line[3:] if len(line) > 3 else ""\<close>, then the right-hand side of a rename\<close>
  "status_payload line =
     (let payload = (if length line > 3 then drop 3 line else []) in
      if contains '' -> '' payload then split_once '' -> '' payload ! 1 else payload)"

definition status_path :: "string \<Rightarrow> path" where
  "status_path line = Path (strip (status_payload line))"

fun changed_loop :: "string list \<Rightarrow> path set \<Rightarrow> path set" where
  \<comment> \<open>the loop over \<open>status.splitlines()\<close>. The test \<open>if rel_path:\<close> of the source
      always succeeds, a \<open>Path\<close> object being true whatever its parts.\<close>
  "changed_loop [] changed = changed"
| "changed_loop (raw # raws) changed =
     (let line = rstrip raw in
      if line = [] then changed_loop raws changed
      else changed_loop raws (insert (status_path line) changed))"

definition parse_status :: "string \<Rightarrow> path set" where
  \<comment> \<open>\<open>parse_changed_paths\<close> from the text that \<open>git status --porcelain\<close> printed\<close>
  "parse_status status = changed_loop (splitlines status) {}"

section \<open>JSON values\<close>

text \<open>
  What \<open>json.loads\<close> returns and \<open>json.dumps\<close> takes: \<open>None\<close>, a \<open>bool\<close>, an \<open>int\<close>,
  a \<open>str\<close>, a \<open>list\<close> or a \<open>dict\<close> with string keys, in insertion order. Numbers with a
  fraction are outside the model.
\<close>

datatype json =
    JNull
  | JBool bool
  | JInt int
  | JStr string
  | JArr "json list"
  | JObj "(string \<times> json) list"

fun truthy :: "json \<Rightarrow> bool" where
  \<comment> \<open>the truth value Python gives a value, as \<open>or\<close> tests it\<close>
  "truthy JNull = False"
| "truthy (JBool b) = b"
| "truthy (JInt n) = (n \<noteq> 0)"
| "truthy (JStr s) = (s \<noteq> [])"
| "truthy (JArr xs) = (xs \<noteq> [])"
| "truthy (JObj kvs) = (kvs \<noteq> [])"

definition py_or :: "json \<Rightarrow> json \<Rightarrow> json" where
  \<comment> \<open>\<open>a or b\<close>\<close>
  "py_or a b = (if truthy a then a else b)"

definition dict_get :: "json \<Rightarrow> string \<Rightarrow> json \<Rightarrow> error + json" where
  \<comment> \<open>\<open>d.get(k, default)\<close>; only a \<open>dict\<close> has the method\<close>
  "dict_get d k dflt =
     (case d of
        JObj kvs \<Rightarrow> Inr (case map_of kvs k of None \<Rightarrow> dflt | Some v \<Rightarrow> v)
      | _ \<Rightarrow> Inl AttributeError)"

definition dict_item :: "json \<Rightarrow> string \<Rightarrow> error + json" where
  \<comment> \<open>\<open>d[k]\<close> for a string \<open>k\<close>\<close>
  "dict_item d k =
     (case d of
        JObj kvs \<Rightarrow> (case map_of kvs k of None \<Rightarrow> Inl (KeyError k) | Some v \<Rightarrow> Inr v)
      | _ \<Rightarrow> Inl TypeError)"

definition is_digit :: "char \<Rightarrow> bool" where
  "is_digit c = (48 \<le> (of_char c :: nat) \<and> (of_char c :: nat) \<le> 57)"

fun int_digits :: "string \<Rightarrow> bool \<Rightarrow> nat \<Rightarrow> nat option" where
  \<comment> \<open>decimal digits, single underscores allowed between two digits; the flag says
      that the character before was a digit\<close>
  "int_digits [] prev acc = (if prev then Some acc else None)"
| "int_digits (c # cs) prev acc =
     (if is_digit c then int_digits cs True (10 * acc + (of_char c - 48))
      else if c = CHR ''_'' \<and> prev \<and> cs \<noteq> [] \<and> is_digit (hd cs) then int_digits cs False acc
      else None)"

definition int_space :: "char \<Rightarrow> bool" where
  \<comment> \<open>the white space that \<open>int\<close> skips around the digits: TAB..CR, space, NEL, NBSP;
      the separators FS..US, which \<open>str.strip\<close> removes, are refused by \<open>int\<close>\<close>
  "int_space c = (let n = (of_char c :: nat) in
     (9 \<le> n \<and> n \<le> 13) \<or> n = 32 \<or> n = 133 \<or> n = 160)"

definition int_strip :: "string \<Rightarrow> string" where
  "int_strip s = dropWhile int_space (rev (dropWhile int_space (rev s)))"

definition int_max_str_digits :: nat where
  \<comment> \<open>the default of \<open>sys.get_int_max_str_digits()\<close>\<close>
  "int_max_str_digits = 4300"

definition int_of_str :: "string \<Rightarrow> int option" where
  \<comment> \<open>\<open>int(s)\<close> for a string: surrounding white space, an optional sign, digits; more
      than 4300 digits (leading zeros counted; sign, underscores and white space not)
      raise \<open>ValueError\<close>, as every malformed string does\<close>
  "int_of_str s =
     (case int_strip s of
        [] \<Rightarrow> None
      | c # cs \<Rightarrow>
          if int_max_str_digits < length (filter is_digit (c # cs)) then None
          else if c = CHR ''-'' then map_option (\<lambda>n. - int n) (int_digits cs False 0)
          else if c = CHR ''+'' then map_option int (int_digits cs False 0)
          else map_option int (int_digits (c # cs) False 0))"

definition py_int :: "json \<Rightarrow> error + int" where
  \<comment> \<open>\<open>int(x)\<close>\<close>
  "py_int x =
     (case x of
        JInt n \<Rightarrow> Inr n
      | JBool b \<Rightarrow> Inr (if b then 1 else 0)
      | JStr s \<Rightarrow> (case int_of_str s of None \<Rightarrow> Inl (ValueError s) | Some n \<Rightarrow> Inr n)
      | _ \<Rightarrow> Inl TypeError)"

fun nat_digits :: "nat \<Rightarrow> string" where
  "nat_digits n =
     (if n < 10 then [char_of (48 + n)]
      else nat_digits (n div 10) @ [char_of (48 + n mod 10)])"

definition str_int :: "int \<Rightarrow> string" where
  \<comment> \<open>\<open>str(n)\<close> for an int\<close>
  "str_int i = (if i < 0 then CHR ''-'' # nat_digits (nat (- i)) else nat_digits (nat i))"

definition py_str :: "(json \<Rightarrow> string) \<Rightarrow> json \<Rightarrow> string" where
  \<comment> \<open>what an f-string puts for a value; the text of a list or a dict is left to the
      parameter\<close>
  "py_str container_repr x =
     (case x of
        JNull \<Rightarrow> ''None''
      | JBool b \<Rightarrow> (if b then ''True'' else ''False'')
      | JInt n \<Rightarrow> str_int n
      | JStr s \<Rightarrow> s
      | _ \<Rightarrow> container_repr x)"

definition err_bind :: "error + 'a \<Rightarrow> ('a \<Rightarrow> error + 'b) \<Rightarrow> error + 'b" where
  \<comment> \<open>sequencing: an exception ends what follows\<close>
  "err_bind m f = (case m of Inl e \<Rightarrow> Inl e | Inr x \<Rightarrow> f x)"

section \<open>The file system\<close>

text \<open>
  The file system is a finite table from absolute paths to nodes, a regular file with
  its content or a directory. A file written by \<open>write_text(json.dumps(v, ...))\<close> holds
  \<open>Doc v\<close>, any other file its text. Symbolic links, permissions and time stamps are
  outside the model. In a table that stands for a real disk every entry has its parent
  as a directory; the operations read the table as it is and do not check this.
\<close>

datatype content = Text string | Doc json

datatype node = File content | Dir

type_synonym fs = "(path \<times> node) list"

definition path_exists :: "fs \<Rightarrow> path \<Rightarrow> bool" where
  "path_exists fs p = (map_of fs p \<noteq> None)"

definition is_file :: "fs \<Rightarrow> path \<Rightarrow> bool" where
  "is_file fs p = (case map_of fs p of Some (File c) \<Rightarrow> True | _ \<Rightarrow> False)"

definition is_dir :: "fs \<Rightarrow> path \<Rightarrow> bool" where
  "is_dir fs p = (map_of fs p = Some Dir)"

definition path_prefixes :: "path \<Rightarrow> path list" where
  \<comment> \<open>the path's ancestors from the root down, then the path itself\<close>
  "path_prefixes p = map (\<lambda>n. take n p) [1 ..< Suc (length p)]"

fun mkdir_chain :: "fs \<Rightarrow> path list \<Rightarrow> error + fs" where
  "mkdir_chain fs [] = Inr fs"
| "mkdir_chain fs (q # qs) =
     (case map_of fs q of
        Some Dir \<Rightarrow> mkdir_chain fs qs
      | Some (File c) \<Rightarrow> Inl (if qs = [] then FileExistsError else NotADirectoryError)
      | None \<Rightarrow> mkdir_chain (AList.update q Dir fs) qs)"

definition mkdir_parents :: "fs \<Rightarrow> path \<Rightarrow> error + fs" where
  \<comment> \<open>\<open>p.mkdir(parents=True, exist_ok=True)\<close>: every missing ancestor and the path are
      created; a regular file in the way is an error\<close>
  "mkdir_parents fs p = mkdir_chain fs (path_prefixes p)"

definition write_file :: "fs \<Rightarrow> path \<Rightarrow> content \<Rightarrow> error + fs" where
  \<comment> \<open>opening \<open>p\<close> for writing and writing \<open>c\<close>: the file is created or replaced\<close>
  "write_file fs p c =
     (case map_of fs p of
        Some Dir \<Rightarrow> Inl IsADirectoryError
      | _ \<Rightarrow>
         (case map_of fs (butlast p) of
            Some Dir \<Rightarrow> Inr (AList.update p (File c) fs)
          | Some (File x) \<Rightarrow> Inl NotADirectoryError
          | None \<Rightarrow> Inl FileNotFoundError))"

definition copy2_target :: "fs \<Rightarrow> path \<Rightarrow> path \<Rightarrow> path" where
  \<comment> \<open>where \<open>shutil.copy2(src, dst)\<close> writes: into \<open>dst\<close> when it is a directory, else
      onto it\<close>
  "copy2_target fs src dst = (if is_dir fs dst then dst @ [path_name src] else dst)"

definition copy2 :: "fs \<Rightarrow> path \<Rightarrow> path \<Rightarrow> error + fs" where
  \<comment> \<open>\<open>shutil.copy2(src, dst)\<close>\<close>
  "copy2 fs src dst =
     (let target = copy2_target fs src dst in
      if path_exists fs src \<and> src = target then Inl SameFileError
      else case map_of fs src of
             None \<Rightarrow> Inl FileNotFoundError
           | Some Dir \<Rightarrow> Inl IsADirectoryError
           | Some (File c) \<Rightarrow> write_file fs target c)"

definition path_under :: "path \<Rightarrow> path \<Rightarrow> bool" where
  \<comment> \<open>\<open>p\<close> lies strictly below the directory \<open>d\<close>\<close>
  "path_under d p = (length d < length p \<and> take (length d) p = d)"

definition rglob_all :: "fs \<Rightarrow> path \<Rightarrow> path list" where
  \<comment> \<open>\<open>d.rglob("*")\<close>: everything below \<open>d\<close>, nothing when \<open>d\<close> is no directory. Python
      leaves the order open; every caller sorts the result or collects it in a set.\<close>
  "rglob_all fs d = (if is_dir fs d then filter (path_under d) (map fst fs) else [])"

definition fnmatch_test_py :: "string \<Rightarrow> bool" where
  \<comment> \<open>the pattern \<open>test*.py\<close> on a name, letter case kept\<close>
  "fnmatch_test_py name = (7 \<le> length name \<and> startswith ''test'' name \<and> endswith ''.py'' name)"

definition rglob_test_py :: "fs \<Rightarrow> path \<Rightarrow> path list" where
  \<comment> \<open>\<open>d.rglob("test*.py")\<close>\<close>
  "rglob_test_py fs d = filter (\<lambda>p. fnmatch_test_py (last p)) (rglob_all fs d)"

definition rmtree :: "fs \<Rightarrow> path \<Rightarrow> error + fs" where
  \<comment> \<open>\<open>shutil.rmtree(d)\<close>\<close>
  "rmtree fs d =
     (case map_of fs d of
        None \<Rightarrow> Inl FileNotFoundError
      | Some (File c) \<Rightarrow> Inl NotADirectoryError
      | Some Dir \<Rightarrow> Inr (filter (\<lambda>(p, n). p \<noteq> d \<and> \<not> path_under d p) fs))"

section \<open>The change detector: special files\<close>

fun special_loop :: "fs \<Rightarrow> path \<Rightarrow> path list \<Rightarrow> path set \<Rightarrow> path set" where
  \<comment> \<open>the loop of \<open>collect_special_files\<close> over \<open>repo_dir.rglob("*")\<close>\<close>
  "special_loop fs repo_dir [] keep = keep"
| "special_loop fs repo_dir (p # ps) keep =
     (if \<not> is_file fs p then special_loop fs repo_dir ps keep
      else
        (let rel = drop (length repo_dir) p;
             name = path_name p;
             lower_name = lower name
         in if name = ''Dockerfile'' \<or> startswith ''Dockerfile.'' name
              then special_loop fs repo_dir ps (insert rel keep)
            else if startswith ''test'' lower_name \<and> suffix_of (path_name p) = ''.py''
              then special_loop fs repo_dir ps (insert rel keep)
            else if rel \<noteq> [] \<and> hd rel = ''tests'' \<and> suffix_of (path_name p) = ''.py''
              then special_loop fs repo_dir ps (insert rel keep)
            else special_loop fs repo_dir ps keep))"

definition collect_special_files :: "fs \<Rightarrow> path \<Rightarrow> path set" where
  "collect_special_files fs repo_dir = special_loop fs repo_dir (rglob_all fs repo_dir) {}"

definition is_special :: "path \<Rightarrow> bool" where
  \<comment> \<open>the three classes of special file as the specification lists them, on a path
      relative to the working tree; the test prefix is \<open>test\<close> in any letter case\<close>
  "is_special rel =
     (let name = path_name rel in
      (name = ''Dockerfile'' \<or> startswith ''Dockerfile.'' name)
      \<or> (startswith ''test'' (lower name) \<and> suffix_of name = ''.py'')
      \<or> (rel \<noteq> [] \<and> hd rel = ''tests'' \<and> suffix_of name = ''.py''))"

section \<open>The bundle assembler\<close>

fun copy_loop :: "fs \<Rightarrow> path \<Rightarrow> path \<Rightarrow> path list \<Rightarrow> error + fs" where
  \<comment> \<open>the loop of \<open>copy_repo_files\<close> over the sorted paths\<close>
  "copy_loop fs repo_dir dest_dir [] = Inr fs"
| "copy_loop fs repo_dir dest_dir (rel # rels) =
     (let src = path_join repo_dir rel in
      if \<not> path_exists fs src \<or> \<not> is_file fs src then copy_loop fs repo_dir dest_dir rels
      else
        (let dst = path_join dest_dir rel in
         err_bind (mkdir_parents fs (butlast dst)) (\<lambda>fs1.
         err_bind (copy2 fs1 src dst) (\<lambda>fs2.
         copy_loop fs2 repo_dir dest_dir rels))))"

definition copy_repo_files :: "fs \<Rightarrow> path \<Rightarrow> path set \<Rightarrow> path \<Rightarrow> error + fs" where
  "copy_repo_files fs repo_dir rel_paths dest_dir =
     err_bind (mkdir_parents fs dest_dir) (\<lambda>fs1.
     copy_loop fs1 repo_dir dest_dir (sorted_list_of_set rel_paths))"

definition issue_url_of :: "json \<Rightarrow> error + json" where
  \<comment> \<open>\<open>issue.get("html_url") or issue.get("url") or ""\<close>\<close>
  "issue_url_of issue =
     err_bind (dict_get issue ''html_url'' JNull) (\<lambda>html_url.
     err_bind (dict_get issue ''url'' JNull) (\<lambda>url.
     Inr (py_or (py_or html_url url) (JStr []))))"

definition pr_sha :: "json \<Rightarrow> string \<Rightarrow> error + json" where
  \<comment> \<open>\<open>pr.get(side, {}).get("sha", "")\<close>\<close>
  "pr_sha pr side =
     err_bind (dict_get pr side (JObj [])) (\<lambda>d. dict_get d ''sha'' (JStr []))"

definition bundle_issue :: "json \<Rightarrow> json \<Rightarrow> string \<Rightarrow> error + int \<times> json" where
  \<comment> \<open>the issue number and the record written to \<open>issue_<number>.json\<close>\<close>
  "bundle_issue issue pr patch_text =
     err_bind (dict_get issue ''number'' JNull) (\<lambda>num.
     err_bind (py_int num) (\<lambda>issue_number.
     err_bind (issue_url_of issue) (\<lambda>issue_url.
     err_bind (pr_sha pr ''base'') (\<lambda>base_sha.
     err_bind (pr_sha pr ''head'') (\<lambda>head_sha.
     Inr (issue_number,
          JObj [(''number'', JInt issue_number),
                (''url'', issue_url),
                (''linked_prs'',
                   JArr [JObj [(''base_sha'', base_sha),
                               (''head_sha'', head_sha),
                               (''patch'', JStr patch_text)]])]))))))"

fun flatten_tests ::
  "fs \<Rightarrow> path \<Rightarrow> path \<Rightarrow> path list \<Rightarrow> string set \<Rightarrow> nat \<Rightarrow> error + fs \<times> nat" where
  \<comment> \<open>the loop over \<open>sorted(files_dir.rglob("test*.py"))\<close> with \<open>seen_names\<close> and
      \<open>copied_tests\<close>\<close>
  "flatten_tests fs bundle_dir export_dir [] seen copied = Inr (fs, copied)"
| "flatten_tests fs bundle_dir export_dir (test_file # rest) seen copied =
     (if \<not> is_file fs test_file then flatten_tests fs bundle_dir export_dir rest seen copied
      else
        (let name = path_name test_file in
         if name \<in> seen then flatten_tests fs bundle_dir export_dir rest seen copied
         else
           err_bind (copy2 fs test_file (bundle_dir @ [name])) (\<lambda>fs1.
           err_bind (copy2 fs1 test_file (export_dir @ [name])) (\<lambda>fs2.
           flatten_tests fs2 bundle_dir export_dir rest (insert name seen) (Suc copied)))))"

definition issue_file_name :: "int \<Rightarrow> string" where
  \<comment> \<open>\<open>f"issue_{issue_number}.json"\<close>\<close>
  "issue_file_name issue_number = ''issue_'' @ str_int issue_number @ ''.json''"

definition copy_dockerfile :: "fs \<Rightarrow> path \<Rightarrow> error + fs" where
  \<comment> \<open>the Dockerfile of \<open>files/\<close>, when there is one, to \<open>bundle/\<close> and to the export
      root\<close>
  "copy_dockerfile fs export_dir =
     (let docker_src = export_dir @ [''files'', ''Dockerfile''];
          docker_dst = export_dir @ [''bundle'', ''codex.dockerfile''];
          docker_root_dst = export_dir @ [''codex.dockerfile'']
      in
      if path_exists fs docker_src \<and> is_file fs docker_src
      then err_bind (copy2 fs docker_src docker_dst) (\<lambda>fs1. copy2 fs1 docker_src docker_root_dst)
      else Inr fs)"

definition flatten_all :: "fs \<Rightarrow> path \<Rightarrow> error + fs \<times> nat" where
  \<comment> \<open>the flattening loop from its start: \<open>seen_names\<close> empty, \<open>copied_tests\<close> zero\<close>
  "flatten_all fs export_dir =
     flatten_tests fs (export_dir @ [''bundle'']) export_dir
       (sort (rglob_test_py fs (export_dir @ [''files'']))) {} 0"

definition bundle_manifest :: "fs \<Rightarrow> path \<Rightarrow> string \<Rightarrow> nat \<Rightarrow> (string \<times> json) list" where
  \<comment> \<open>the dict that \<open>create_checker_bundle\<close> returns\<close>
  "bundle_manifest fs export_dir issue_file copied_tests =
     (let bundle_dir = export_dir @ [''bundle''];
          docker_dst = bundle_dir @ [''codex.dockerfile''];
          docker_root_dst = export_dir @ [''codex.dockerfile'']
      in
      [(''bundle_dir'', JStr (path_str bundle_dir)),
       (''bundle_issue_json'', JStr (path_str (bundle_dir @ [issue_file]))),
       (''bundle_dockerfile'',
          JStr (if path_exists fs docker_dst then path_str docker_dst else [])),
       (''bundle_test_count'', JStr (str_int (int copied_tests))),
       (''root_issue_json'', JStr (path_str (export_dir @ [issue_file]))),
       (''root_dockerfile'',
          JStr (if path_exists fs docker_root_dst then path_str docker_root_dst else [])),
       (''root_test_count'', JStr (str_int (int copied_tests)))])"

definition create_checker_bundle ::
  "fs \<Rightarrow> path \<Rightarrow> json \<Rightarrow> json \<Rightarrow> string \<Rightarrow> error + fs \<times> (string \<times> json) list" where
  "create_checker_bundle fs export_dir issue pr patch_text =
     err_bind (mkdir_parents fs (export_dir @ [''bundle''])) (\<lambda>fs1.
     err_bind (bundle_issue issue pr patch_text) (\<lambda>(issue_number, record).
     err_bind (write_file fs1 (export_dir @ [''bundle'', issue_file_name issue_number])
                 (Doc record)) (\<lambda>fs2.
     err_bind (copy_dockerfile fs2 export_dir) (\<lambda>fs3.
     err_bind (flatten_all fs3 export_dir) (\<lambda>(fs4, copied_tests).
     err_bind (copy2 fs4 (export_dir @ [''bundle'', issue_file_name issue_number])
                 (export_dir @ [issue_file_name issue_number])) (\<lambda>fs5.
     Inr (fs5, bundle_manifest fs5 export_dir (issue_file_name issue_number) copied_tests)))))))"

section \<open>The pipeline driver\<close>

text \<open>
  The collaborators of the pipeline are parameters: the GitHub client, the two ways to
  clone, the agent and the status query. Each either fails with an error or returns its
  result, the commands that change the disk returning the new file system.
\<close>

record ext =
  gh_api_json :: "string \<Rightarrow> error + json"
  gh_api_text :: "string \<Rightarrow> string \<Rightarrow> error + string"
  gh_repo_clone :: "string \<Rightarrow> path \<Rightarrow> fs \<Rightarrow> error + fs"
  git_clone :: "string \<Rightarrow> path \<Rightarrow> fs \<Rightarrow> error + fs"
  codex_run :: "string list \<Rightarrow> (string \<rightharpoonup> string) \<Rightarrow> path \<Rightarrow> fs \<Rightarrow> error + fs"
  git_status :: "path \<Rightarrow> fs \<Rightarrow> error + string"
  container_repr :: "json \<Rightarrow> string"

record args =
  repos_root :: path
  result_root :: path
  baseline_dir_name :: string
  dry_run :: bool
  f2p_checker_files :: "path list"
  environ :: "string \<rightharpoonup> string"
  has_gh :: bool
  has_codex :: bool

definition assemble ::
  "fs \<Rightarrow> path \<Rightarrow> path \<Rightarrow> path set \<Rightarrow> json \<Rightarrow> json \<Rightarrow> string
     \<Rightarrow> error + fs \<times> (string \<times> json) list" where
  \<comment> \<open>the two calls of \<open>main\<close> that make up the bundle assembler: \<open>copy_repo_files\<close>
      into \<open>files/\<close>, then \<open>create_checker_bundle\<close>\<close>
  "assemble fs repo_dir export_dir keep_paths issue pr patch_text =
     err_bind (copy_repo_files fs repo_dir keep_paths (export_dir @ [''files''])) (\<lambda>fs1.
     create_checker_bundle fs1 export_dir issue pr patch_text)"

definition ensure_repo :: "ext \<Rightarrow> fs \<Rightarrow> string \<Rightarrow> path \<Rightarrow> error + fs \<times> path \<times> bool" where
  "ensure_repo x fs repo_full_name root =
     (let repo_name = last (split_char (CHR ''/'') [] repo_full_name);
          repo_dir = path_join root (Path repo_name)
      in
      if path_exists fs (repo_dir @ [''.git'']) then Inr (fs, repo_dir, False)
      else if path_exists fs repo_dir
        then Inl (RuntimeError ''Target path exists but is not a git repo'')
      else
        (case gh_repo_clone x repo_full_name repo_dir fs of
           Inr fs1 \<Rightarrow> Inr (fs1, repo_dir, True)
         | Inl (RuntimeError m) \<Rightarrow>
             err_bind (git_clone x repo_full_name repo_dir fs) (\<lambda>fs1. Inr (fs1, repo_dir, True))
         | Inl e \<Rightarrow> Inl e))"

fun copy_checker_loop :: "fs \<Rightarrow> path \<Rightarrow> path list \<Rightarrow> path list \<Rightarrow> error + fs \<times> path list" where
  "copy_checker_loop fs dst_dir [] copied = Inr (fs, copied)"
| "copy_checker_loop fs dst_dir (src # srcs) copied =
     (if \<not> path_exists fs src \<or> \<not> is_file fs src then copy_checker_loop fs dst_dir srcs copied
      else
        (let dst = dst_dir @ [path_name src] in
         err_bind (copy2 fs src dst) (\<lambda>fs1.
         copy_checker_loop fs1 dst_dir srcs (copied @ [dst]))))"

definition copy_f2p_checker_files :: "fs \<Rightarrow> path list \<Rightarrow> path \<Rightarrow> error + fs \<times> path list" where
  "copy_f2p_checker_files fs src_files baseline_dir =
     (let dst_dir = baseline_dir @ [''f2p_checker''] in
      err_bind (mkdir_parents fs dst_dir) (\<lambda>fs1. copy_checker_loop fs1 dst_dir src_files []))"

definition build_prompt :: "(json \<Rightarrow> string) \<Rightarrow> string \<Rightarrow> json \<Rightarrow> json \<Rightarrow> error + string" where
  "build_prompt repr template issue pr =
     err_bind (dict_get issue ''title'' (JStr [])) (\<lambda>issue_title.
     err_bind (dict_get issue ''body'' (JStr [])) (\<lambda>issue_body0.
     err_bind (dict_get pr ''title'' (JStr [])) (\<lambda>pr_title.
     err_bind (dict_get pr ''body'' (JStr [])) (\<lambda>pr_body0.
     err_bind (dict_get pr ''html_url'' (JStr [])) (\<lambda>pr_url.
     let nl = [CHR 0x0A];
         issue_body = py_or issue_body0 (JStr ''(empty)'');
         pr_body = py_or pr_body0 (JStr ''(empty)'')
     in Inr (strip template @ nl @ nl
             @ ''## 3) Context from GitHub'' @ nl @ nl
             @ ''### Issue: '' @ py_str repr issue_title @ nl @ nl
             @ py_str repr issue_body @ nl @ nl
             @ ''### PR: '' @ py_str repr pr_title @ nl @ nl
             @ py_str repr pr_body @ nl @ nl
             @ ''PR URL: '' @ py_str repr pr_url @ nl))))))"

definition parse_changed_paths :: "ext \<Rightarrow> fs \<Rightarrow> path \<Rightarrow> error + path set" where
  "parse_changed_paths x fs repo_dir =
     err_bind (git_status x repo_dir fs) (\<lambda>status. Inr (parse_status status))"

definition summary_json ::
  "string \<Rightarrow> int \<Rightarrow> int \<Rightarrow> path \<Rightarrow> path set \<Rightarrow> path set \<Rightarrow> bool \<Rightarrow> path list
     \<Rightarrow> (string \<times> json) list" where
  \<comment> \<open>the \<open>summary\<close> dict before the bundle's entries are added\<close>
  "summary_json repo issue_number pr_number export_dir changed_paths keep_paths cloned_now copied =
     [(''repo'', JStr repo),
      (''issue_number'', JInt issue_number),
      (''pr_number'', JInt pr_number),
      (''export_dir'', JStr (path_str export_dir)),
      (''changed_files_count'', JInt (int (card changed_paths))),
      (''kept_files_count'', JInt (int (card keep_paths))),
      (''repo_removed'', JBool cloned_now),
      (''f2p_checker_files'', JArr (map (\<lambda>p. JStr (path_str p)) copied))]"

definition item_summary ::
  "fs \<Rightarrow> string \<Rightarrow> int \<Rightarrow> int \<Rightarrow> path \<Rightarrow> path \<Rightarrow> path set \<Rightarrow> bool \<Rightarrow> path list
     \<Rightarrow> path set \<times> (string \<times> json) list" where
  \<comment> \<open>\<open>keep_paths\<close> and \<open>summary\<close> from \<open>changed_paths\<close>\<close>
  "item_summary fs repo issue_number pr_number export_dir repo_dir changed_paths cloned_now copied =
     (let keep_paths = changed_paths \<union> collect_special_files fs repo_dir in
      (keep_paths,
       summary_json repo issue_number pr_number export_dir changed_paths keep_paths
         cloned_now copied))"

fun copy_all_into :: "fs \<Rightarrow> path \<Rightarrow> path list \<Rightarrow> error + fs" where
  \<comment> \<open>\<open>for p in paths: shutil.copy2(p, d / p.name)\<close>\<close>
  "copy_all_into fs d [] = Inr fs"
| "copy_all_into fs d (p # ps) =
     err_bind (copy2 fs p (d @ [path_name p])) (\<lambda>fs1. copy_all_into fs1 d ps)"

definition export_item ::
  "ext \<Rightarrow> args \<Rightarrow> fs \<Rightarrow> string \<Rightarrow> int \<Rightarrow> int \<Rightarrow> path \<Rightarrow> bool \<Rightarrow> path \<Rightarrow> path list
     \<Rightarrow> json \<Rightarrow> json \<Rightarrow> string \<Rightarrow> error + fs" where
  \<comment> \<open>the body of the loop of \<open>main\<close> after the agent has run\<close>
  "export_item x a fs repo issue_number pr_number repo_dir cloned_now baseline_dir
       copied_checker_paths issue pr patch_text =
     (let repo_name = last (split_char (CHR ''/'') [] repo);
          export_dir =
            path_join (path_join (result_root a) (Path repo_name)) (Path (str_int issue_number));
          meta_dir = export_dir @ [''metadata''];
          patch_name = ''pr_'' @ str_int pr_number @ ''.patch'';
          body_name = ''issue_'' @ str_int issue_number @ ''.md'';
          prompt_name = ''codex_prompt_'' @ str_int issue_number @ ''.md''
      in
      err_bind (mkdir_parents fs meta_dir) (\<lambda>fs1.
      err_bind (copy2 fs1 (baseline_dir @ [''issue.json'']) (meta_dir @ [''issue.json''])) (\<lambda>fs2.
      err_bind (copy2 fs2 (baseline_dir @ [''pr.json'']) (meta_dir @ [''pr.json''])) (\<lambda>fs3.
      err_bind (copy2 fs3 (baseline_dir @ [patch_name]) (meta_dir @ [patch_name])) (\<lambda>fs4.
      err_bind (copy2 fs4 (baseline_dir @ [body_name]) (meta_dir @ [body_name])) (\<lambda>fs5.
      err_bind (copy2 fs5 (baseline_dir @ [prompt_name]) (meta_dir @ [prompt_name])) (\<lambda>fs6.
      err_bind
        (if copied_checker_paths \<noteq> [] then
           err_bind (mkdir_parents fs6 (meta_dir @ [''f2p_checker''])) (\<lambda>fs'.
           copy_all_into fs' (meta_dir @ [''f2p_checker'']) copied_checker_paths)
         else Inr fs6) (\<lambda>fs7.
      err_bind (parse_changed_paths x fs7 repo_dir) (\<lambda>changed_paths.
      case item_summary fs7 repo issue_number pr_number export_dir repo_dir changed_paths
             cloned_now copied_checker_paths of
        (keep_paths, summary) \<Rightarrow>
      err_bind (assemble fs7 repo_dir export_dir keep_paths issue pr patch_text)
        (\<lambda>(fs9, bundle).
      err_bind (write_file fs9 (export_dir @ [''summary.json'']) (Doc (JObj (summary @ bundle))))
        (\<lambda>fs10.
      if cloned_now then rmtree fs10 repo_dir else Inr fs10)))))))))))"

definition issue_endpoint :: "string \<Rightarrow> int \<Rightarrow> string" where
  \<comment> \<open>\<open>f"repos/{repo}/issues/{issue_number}"\<close>\<close>
  "issue_endpoint repo issue_number = ''repos/'' @ repo @ ''/issues/'' @ str_int issue_number"

definition pull_endpoint :: "string \<Rightarrow> int \<Rightarrow> string" where
  \<comment> \<open>\<open>f"repos/{repo}/pulls/{pr_number}"\<close>\<close>
  "pull_endpoint repo pr_number = ''repos/'' @ repo @ ''/pulls/'' @ str_int pr_number"

definition process_item ::
  "ext \<Rightarrow> args \<Rightarrow> string \<Rightarrow> (string \<rightharpoonup> string) \<Rightarrow> string list \<Rightarrow> json \<Rightarrow> fs \<Rightarrow> error + fs" where
  \<comment> \<open>one pass of the loop of \<open>main\<close>\<close>
  "process_item x a prompt_template base_env codex_base_cmd item fs =
     err_bind (dict_item item ''repo'') (\<lambda>repo_value.
     err_bind (err_bind (dict_item item ''issue_number'') py_int) (\<lambda>issue_number.
     err_bind (err_bind (dict_item item ''pr_number'') py_int) (\<lambda>pr_number.
     case repo_value of
       JStr repo \<Rightarrow>
         err_bind (ensure_repo x fs repo (repos_root a)) (\<lambda>(fs1, repo_dir, cloned_now).
         let baseline_dir = path_join repo_dir (Path (baseline_dir_name a)) in
         err_bind (mkdir_parents fs1 baseline_dir) (\<lambda>fs2.
         err_bind (copy_f2p_checker_files fs2 (f2p_checker_files a) baseline_dir)
           (\<lambda>(fs3, copied_checker_paths).
         err_bind (gh_api_json x (issue_endpoint repo issue_number))
           (\<lambda>issue.
         err_bind (gh_api_json x (pull_endpoint repo pr_number)) (\<lambda>pr.
         err_bind (gh_api_text x (pull_endpoint repo pr_number)
                     ''application/vnd.github.v3.patch'') (\<lambda>patch_text.
         err_bind (write_file fs3 (baseline_dir @ [''issue.json'']) (Doc issue)) (\<lambda>fs4.
         err_bind (write_file fs4 (baseline_dir @ [''pr.json'']) (Doc pr)) (\<lambda>fs5.
         err_bind (write_file fs5 (baseline_dir @ [''pr_'' @ str_int pr_number @ ''.patch''])
                     (Text patch_text)) (\<lambda>fs6.
         err_bind (dict_get issue ''body'' (JStr [])) (\<lambda>body0.
         err_bind (case py_or body0 (JStr []) of
                     JStr issue_body \<Rightarrow>
                       write_file fs6 (baseline_dir @ [''issue_'' @ str_int issue_number @ ''.md''])
                         (Text issue_body)
                   | _ \<Rightarrow> Inl TypeError) (\<lambda>fs7.
         err_bind (build_prompt (container_repr x) prompt_template issue pr) (\<lambda>codex_prompt.
         err_bind (write_file fs7
                     (baseline_dir @ [''codex_prompt_'' @ str_int issue_number @ ''.md''])
                     (Text codex_prompt)) (\<lambda>fs8.
         if dry_run a then Inr fs8
         else
           err_bind (codex_run x (codex_base_cmd @ [codex_prompt]) base_env repo_dir fs8) (\<lambda>fs9.
           export_item x a fs9 repo issue_number pr_number repo_dir cloned_now baseline_dir
             copied_checker_paths issue pr patch_text))))))))))))))
     | _ \<Rightarrow> Inl AttributeError)))"

fun main_loop ::
  "ext \<Rightarrow> args \<Rightarrow> string \<Rightarrow> (string \<rightharpoonup> string) \<Rightarrow> string list \<Rightarrow> json list \<Rightarrow> fs \<Rightarrow> error + fs" where
  \<comment> \<open>\<open>for idx, item in enumerate(items, start=1)\<close>: no handler encloses the body, an
      exception raised in it leaves the loop and \<open>main\<close>\<close>
  "main_loop x a prompt_template base_env codex_base_cmd [] fs = Inr fs"
| "main_loop x a prompt_template base_env codex_base_cmd (item # items) fs =
     err_bind (process_item x a prompt_template base_env codex_base_cmd item fs) (\<lambda>fs1.
     main_loop x a prompt_template base_env codex_base_cmd items fs1)"

definition main :: "ext \<Rightarrow> args \<Rightarrow> json list \<Rightarrow> string \<Rightarrow> string \<Rightarrow> fs \<Rightarrow> error + fs" where
  \<comment> \<open>\<open>main\<close> from the parsed arguments; \<open>items\<close>, \<open>prompt_template\<close> and \<open>template_text\<close>
      are what it reads from the map file, the prompt file and the template file\<close>
  "main x a items prompt_template template_text fs =
     (if \<not> has_gh a then Inl (RuntimeError ''Missing required dependency: gh'')
      else if \<not> has_codex a \<and> \<not> dry_run a
        then Inl (RuntimeError ''Missing required dependency: codex'')
      else
        err_bind (mkdir_parents fs (repos_root a)) (\<lambda>fs1.
        err_bind (mkdir_parents fs1 (result_root a)) (\<lambda>fs2.
        err_bind (parse_codex_template template_text) (\<lambda>(exported_env, codex_base_cmd).
        main_loop x a prompt_template (environ a ++ exported_env) codex_base_cmd items fs2))))"

section \<open>Definitions used to state the properties\<close>



definition evolves :: "fs \<Rightarrow> fs \<Rightarrow> path set \<Rightarrow> bool" where
  \<comment> \<open>how a file system may change: outside \<open>W\<close> nothing changes, a directory stays
      one, a regular file stays one, a new directory appears only where nothing was, and
      new entries lie in \<open>W\<close>\<close>
  "evolves s s' W \<longleftrightarrow>
     (\<forall>p. p \<notin> W \<longrightarrow> map_of s' p = map_of s p) \<and>
     (\<forall>p. map_of s p = Some Dir \<longrightarrow> map_of s' p = Some Dir) \<and>
     (\<forall>p. is_file s p \<longrightarrow> is_file s' p) \<and>
     (\<forall>p. map_of s' p = Some Dir \<longrightarrow> map_of s p = Some Dir \<or> map_of s p = None) \<and>
     (\<exists>ks. map fst s' = map fst s @ ks \<and> set ks \<subseteq> W)"

definition flat_targets :: "path \<Rightarrow> path \<Rightarrow> string \<Rightarrow> path set" where
  \<comment> \<open>where flattening a file of the given name may write\<close>
  "flat_targets b e nm = {b @ [nm], b @ [nm, nm], e @ [nm], e @ [nm, nm]}"






subsection \<open>A small world for concrete runs\<close>

definition demo_ext :: ext where
  \<comment> \<open>the GitHub client fails on issue 42 of \<open>acme/widgets\<close> and answers anything else\<close>
  "demo_ext =
     \<lparr> gh_api_json = (\<lambda>endpoint.
          if endpoint = ''repos/acme/widgets/issues/42''
          then Inl (RuntimeError ''Command failed (exit 1): gh api repos/acme/widgets/issues/42'')
          else Inr (JObj [(''title'', JStr ''t'')])),
       gh_api_text = (\<lambda>endpoint accept. Inr ''diff''),
       gh_repo_clone = (\<lambda>repo dir fs. Inl (RuntimeError ''no network'')),
       git_clone = (\<lambda>repo dir fs. Inl (RuntimeError ''no network'')),
       codex_run = (\<lambda>cmd env cwd fs. Inr fs),
       git_status = (\<lambda>cwd fs. Inr []),
       container_repr = (\<lambda>v. []) \<rparr>"

definition demo_args :: args where
  "demo_args =
     \<lparr> repos_root = [''/'', ''w''],
       result_root = [''/'', ''w'', ''results''],
       baseline_dir_name = ''Baseline'',
       dry_run = True,
       f2p_checker_files = [],
       environ = Map.empty,
       has_gh = True,
       has_codex = True \<rparr>"

definition demo_disk :: fs where
  \<comment> \<open>two checkouts under \<open>/w\<close>\<close>
  "demo_disk =
     [([''/''], Dir), ([''/'', ''w''], Dir),
      ([''/'', ''w'', ''widgets''], Dir), ([''/'', ''w'', ''widgets'', ''.git''], Dir),
      ([''/'', ''w'', ''gadgets''], Dir), ([''/'', ''w'', ''gadgets'', ''.git''], Dir)]"

definition demo_item :: "string \<Rightarrow> int \<Rightarrow> int \<Rightarrow> json" where
  "demo_item repo issue_number pr_number =
     JObj [(''repo'', JStr repo), (''issue_number'', JInt issue_number),
           (''pr_number'', JInt pr_number)]"


definition demo_export :: fs where
  \<comment> \<open>an export root \<open>/o\<close> whose \<open>files/\<close> holds two test files of one name\<close>
  "demo_export =
     [([''/''], Dir), ([''/'', ''o''], Dir), ([''/'', ''o'', ''files''], Dir),
      ([''/'', ''o'', ''files'', ''tests''], Dir),
      ([''/'', ''o'', ''files'', ''tests'', ''test_x.py''], File (Text ''T'')),
      ([''/'', ''o'', ''files'', ''extra''], Dir),
      ([''/'', ''o'', ''files'', ''extra'', ''test_x.py''], File (Text ''E'')),
      ([''/'', ''o'', ''bundle''], Dir)]"

definition demo_repo :: fs where
  \<comment> \<open>the scenario of the specification: a working tree \<open>/r\<close> with a changed source
      file, a new test file and a Dockerfile, and an empty export root \<open>/o\<close>\<close>
  "demo_repo =
     [([''/''], Dir), ([''/'', ''r''], Dir),
      ([''/'', ''r'', ''src''], Dir),
      ([''/'', ''r'', ''src'', ''a.py''], File (Text ''A'')),
      ([''/'', ''r'', ''tests''], Dir),
      ([''/'', ''r'', ''tests'', ''test_new.py''], File (Text ''T'')),
      ([''/'', ''r'', ''Dockerfile''], File (Text ''D'')),
      ([''/'', ''o''], Dir)]"

definition demo_keep :: "path set" where
  \<comment> \<open>the change set of the scenario\<close>
  "demo_keep = {[''src'', ''a.py''], [''tests'', ''test_new.py''], [''Dockerfile'']}"



section \<open>Properties of the template parser\<close>

lemma merge_lines_all_continued:
  "list_all (\<lambda>ln. endswith [CHR 0x5C] (strip ln)) lns \<Longrightarrow>
   merge_lines lns = map (\<lambda>ln. strip (butlast (strip ln))) lns"
  by (induction lns) (auto simp: endswith_def Let_def)

lemmas template_eval =
  parse_codex_template_def template_tokens_def template_lines_def splitlines_def
  is_linebreak_def rstrip_def is_space_def strip_def lstrip_def contains_def startswith_def
  endswith_def command_tokens_def shlex_split_def shlex_whitespace_def shlex_quote_char_def
  strip_placeholder_def

text \<open>
  Claim C2, as the specification states it: a template in which every line from the
  marker line to the end of the file ends in a backslash is rejected with a parse error.
  The parser has no such check. The one-line template \<open>codex exec --flag \\<close> is
  accepted.
\<close>

theorem open_continuation_counterexample:
  "open_continuation (''codex exec --flag '' @ [CHR 0x5C]) \<and>
   parse_codex_template (''codex exec --flag '' @ [CHR 0x5C]) =
     Inr (Map.empty, [''codex'', ''exec'', ''--flag''])"
  by (simp add: open_continuation_def template_eval)

text \<open>
  Claim C2, amended: when every line from the marker line to the end of the file ends in
  a backslash, the parser does not fail for that reason. The command text is every one
  of those lines without its backslash, joined by single spaces, and the result is what
  tokenizing, validating and placeholder stripping make of that text.
\<close>

theorem open_continuation_parsed:
  assumes "open_continuation text"
  shows "\<exists>i. find_cmd_start (template_lines text) = Some i \<and>
     parse_codex_template text =
       (case command_tokens (join '' '' (map (\<lambda>ln. strip (butlast (strip ln)))
                                            (drop i (template_lines text)))) of
          Inl e \<Rightarrow> Inl e
        | Inr toks \<Rightarrow> Inr (export_env_of (template_lines text) Map.empty, strip_placeholder toks))"
  using assms
  by (auto simp: open_continuation_def parse_codex_template_def template_tokens_def Let_def
        merge_lines_all_continued split: option.splits)

theorem open_continuation_parsed_witness:
  "open_continuation (''codex exec --flag '' @ [CHR 0x5C, CHR 0x0A] @ ''  value hello '' @ [CHR 0x5C])
   \<and> parse_codex_template
        (''codex exec --flag '' @ [CHR 0x5C, CHR 0x0A] @ ''  value hello '' @ [CHR 0x5C]) =
       Inr (Map.empty, [''codex'', ''exec'', ''--flag'', ''value''])"
proof -
  let ?t = "''codex exec --flag '' @ [CHR 0x5C, CHR 0x0A] @ ''  value hello '' @ [CHR 0x5C]"
  have h: "open_continuation ?t"
    by (simp add: open_continuation_def template_eval)
  from open_continuation_parsed [OF h]
  have "parse_codex_template ?t =
       Inr (Map.empty, [''codex'', ''exec'', ''--flag'', ''value''])"
    by (simp add: template_eval)
  with h show ?thesis by simp
qed

text \<open>
  Claim C6: for every template that parses, the returned base command is the token
  sequence of the template without its last token when that token does not start with
  \<open>-\<close>, and the whole token sequence when it does; at most that one token is removed.
\<close>

theorem placeholder_stripping:
  assumes "parse_codex_template text = Inr (env, cmd)"
  shows "\<exists>toks. template_tokens text = Inr toks \<and> toks \<noteq> [] \<and>
           (if startswith ''-'' (last toks) then cmd = toks else cmd = butlast toks) \<and>
           length toks - length cmd \<le> 1"
proof -
  from assms obtain toks where t: "template_tokens text = Inr toks"
    and c: "cmd = strip_placeholder toks"
    by (auto simp: parse_codex_template_def Let_def split: sum.splits)
  from t have "2 \<le> length toks"
    by (auto simp: template_tokens_def command_tokens_def Let_def
             split: option.splits sum.splits if_splits)
  then have ne: "toks \<noteq> []" by auto
  with c t show ?thesis
    by (auto simp: strip_placeholder_def)
qed

theorem placeholder_stripping_witness:
  "parse_codex_template ''codex exec --flag value hello'' =
     Inr (Map.empty, [''codex'', ''exec'', ''--flag'', ''value''])
   \<and> (\<exists>toks. template_tokens ''codex exec --flag value hello'' = Inr toks \<and> toks \<noteq> [] \<and>
           (if startswith ''-'' (last toks) then [''codex'', ''exec'', ''--flag'', ''value''] = toks
            else [''codex'', ''exec'', ''--flag'', ''value''] = butlast toks) \<and>
           length toks - length [''codex'', ''exec'', ''--flag'', ''value''] \<le> 1)"
proof -
  have h: "parse_codex_template ''codex exec --flag value hello'' =
     Inr (Map.empty, [''codex'', ''exec'', ''--flag'', ''value''])"
    by (simp add: template_eval)
  show ?thesis using h placeholder_stripping [OF h] by simp
qed

section \<open>Sequencing\<close>

lemma err_bind_simps [simp]:
  "err_bind (Inl e) f = Inl e" "err_bind (Inr v) f = f v"
  by (simp_all add: err_bind_def)

lemma err_bind_eq_Inr:
  "err_bind m f = Inr r \<longleftrightarrow> (\<exists>v. m = Inr v \<and> f v = Inr r)"
  by (cases m) simp_all

section \<open>Properties of the pipeline driver\<close>

lemma main_loop_append:
  "main_loop x a pt env cmd (xs @ ys) fs =
     err_bind (main_loop x a pt env cmd xs fs) (\<lambda>fs1. main_loop x a pt env cmd ys fs1)"
  by (induction xs arbitrary: fs) (auto simp: err_bind_def split: sum.splits)

lemma process_item_fetch_fails:
  assumes "dict_item item ''repo'' = Inr (JStr repo)"
      and "err_bind (dict_item item ''issue_number'') py_int = Inr n"
      and "err_bind (dict_item item ''pr_number'') py_int = Inr m"
      and "isl (gh_api_json x (issue_endpoint repo n))
           \<or> isl (gh_api_json x (pull_endpoint repo m))
           \<or> isl (gh_api_text x (pull_endpoint repo m) ''application/vnd.github.v3.patch'')"
  shows "isl (process_item x a pt env cmd item fs)"
proof -
  let ?i = "gh_api_json x (issue_endpoint repo n)"
  let ?p = "gh_api_json x (pull_endpoint repo m)"
  let ?t = "gh_api_text x (pull_endpoint repo m) ''application/vnd.github.v3.patch''"
  have fetch: "isl (err_bind ?i (\<lambda>issue. err_bind ?p (\<lambda>pr. err_bind ?t (k issue pr))))" for k
    using assms(4) by (cases ?i; cases ?p; cases ?t) auto
  show ?thesis
    unfolding process_item_def using assms(1-3)
    apply (simp add: Let_def)
    apply (cases "ensure_repo x fs repo (repos_root a)"; simp)
    apply (clarsimp simp: Let_def)
    subgoal for fs1 repo_dir cloned
      apply (cases "mkdir_parents fs1 (path_join repo_dir (Path (baseline_dir_name a)))"; simp)
      subgoal for fs2
        apply (cases "copy_f2p_checker_files fs2 (f2p_checker_files a)
                        (path_join repo_dir (Path (baseline_dir_name a)))"; simp)
        apply (clarsimp)
        apply (rule fetch)
        done
      done
    done
qed

lemmas demo_eval =
  demo_ext_def demo_args_def demo_disk_def demo_item_def process_item_def dict_item_def
  py_int_def ensure_repo_def split_char.simps Path_def path_root_def startswith_def
  path_join_def is_absolute_def path_exists_def mkdir_parents_def path_prefixes_def
  copy_f2p_checker_files_def issue_endpoint_def pull_endpoint_def str_int_def
  write_file_def dict_get_def py_or_def build_prompt_def py_str_def Let_def
  strip_def lstrip_def rstrip_def is_space_def upt_rec char_of_eq_iff

text \<open>
  Claim C1, as the specification states it: when the fetch of the issue, of the pull
  request or of the patch fails for a work item, that item alone is given up and the
  pipeline goes on with the next one. In the source no handler encloses the body of
  the loop. With a client that fails on the first of two items, the run ends with the
  client's error, although the second item alone is processed without error.
\<close>

theorem fetch_failure_counterexample:
  "main_loop demo_ext demo_args ''fix it'' Map.empty [''codex'', ''exec'']
     [demo_item ''acme/widgets'' 42 99, demo_item ''acme/gadgets'' 7 8] demo_disk =
     Inl (RuntimeError ''Command failed (exit 1): gh api repos/acme/widgets/issues/42'')
   \<and> \<not> isl (main_loop demo_ext demo_args ''fix it'' Map.empty [''codex'', ''exec'']
              [demo_item ''acme/gadgets'' 7 8] demo_disk)"
  by (simp add: demo_eval)

text \<open>
  Claim C1, amended: when the items before a work item are processed without error and
  the fetch of the issue, of the pull request or of the patch fails for that item, the
  whole run ends with an error, the one that processing this item raises, and no later
  work item is processed.
\<close>

theorem fetch_failure_ends_run:
  assumes pre: "main_loop x a pt env cmd pre fs = Inr fs1"
      and "dict_item item ''repo'' = Inr (JStr repo)"
      and "err_bind (dict_item item ''issue_number'') py_int = Inr n"
      and "err_bind (dict_item item ''pr_number'') py_int = Inr m"
      and "isl (gh_api_json x (issue_endpoint repo n))
           \<or> isl (gh_api_json x (pull_endpoint repo m))
           \<or> isl (gh_api_text x (pull_endpoint repo m) ''application/vnd.github.v3.patch'')"
  shows "isl (main_loop x a pt env cmd (pre @ item # post) fs) \<and>
         main_loop x a pt env cmd (pre @ item # post) fs = process_item x a pt env cmd item fs1"
proof -
  have "isl (process_item x a pt env cmd item fs1)"
    by (rule process_item_fetch_fails [OF assms(2-5)])
  then obtain e where "process_item x a pt env cmd item fs1 = Inl e"
    by (cases "process_item x a pt env cmd item fs1") auto
  with pre show ?thesis by (simp add: main_loop_append)
qed

theorem fetch_failure_ends_run_witness:
  "isl (gh_api_json demo_ext (issue_endpoint ''acme/widgets'' 42)) \<and>
   isl (main_loop demo_ext demo_args ''fix it'' Map.empty [''codex'', ''exec'']
          ([demo_item ''acme/gadgets'' 7 8] @ demo_item ''acme/widgets'' 42 99
             # [demo_item ''acme/gadgets'' 1 2]) demo_disk)"
proof -
  obtain fs1 where pre: "main_loop demo_ext demo_args ''fix it'' Map.empty [''codex'', ''exec'']
      [demo_item ''acme/gadgets'' 7 8] demo_disk = Inr fs1"
    by (simp add: demo_eval)
  have f: "isl (gh_api_json demo_ext (issue_endpoint ''acme/widgets'' 42))"
    by (simp add: demo_eval)
  have r: "dict_item (demo_item ''acme/widgets'' 42 99) ''repo'' = Inr (JStr ''acme/widgets'')"
    and n: "err_bind (dict_item (demo_item ''acme/widgets'' 42 99) ''issue_number'') py_int = Inr 42"
    and m: "err_bind (dict_item (demo_item ''acme/widgets'' 42 99) ''pr_number'') py_int = Inr 99"
    by (simp_all add: demo_item_def dict_item_def py_int_def)
  have "isl (main_loop demo_ext demo_args ''fix it'' Map.empty [''codex'', ''exec'']
          ([demo_item ''acme/gadgets'' 7 8] @ demo_item ''acme/widgets'' 42 99
             # [demo_item ''acme/gadgets'' 1 2]) demo_disk)"
    using fetch_failure_ends_run [OF pre r n m disjI1 [OF f]] by (rule conjunct1)
  with f show ?thesis by simp
qed

section \<open>Properties of the change detector\<close>

lemma finite_changed_loop: "finite S \<Longrightarrow> finite (changed_loop raws S)"
  by (induction raws arbitrary: S) (auto simp: Let_def)

lemma finite_parse_status: "finite (parse_status status)"
  by (simp add: parse_status_def finite_changed_loop)

lemma finite_special_loop: "finite keep \<Longrightarrow> finite (special_loop fs d ps keep)"
  by (induction ps arbitrary: keep) (auto simp: Let_def)

lemma finite_collect_special_files: "finite (collect_special_files fs d)"
  by (simp add: collect_special_files_def finite_special_loop)

lemmas status_eval =
  parse_status_def splitlines_def is_linebreak_def rstrip_def is_space_def
  status_path_def status_payload_def contains_def startswith_def split_once_def Path_def
  path_root_def strip_def lstrip_def

lemma startswith_append:
  assumes "length sep \<le> length xs"
  shows "startswith sep (xs @ ys) = startswith sep xs"
  using assms by (simp add: startswith_def)

lemma find_sub_first:
  assumes "\<not> contains sep (a @ butlast sep)" "sep \<noteq> []"
  shows "find_sub sep (a @ sep @ b) = Some (length a)"
  using assms(1)
proof (induction a)
  case Nil
  have st: "startswith sep (sep @ b)" by (simp add: startswith_def)
  from assms(2) obtain x xs where "sep @ b = x # xs" by (cases sep) auto
  with st show ?case by simp
next
  case (Cons c a)
  from Cons.prems have ns: "\<not> startswith sep ((c # a) @ butlast sep)"
    and nc: "\<not> contains sep (a @ butlast sep)"
    by (auto simp: contains_def split: if_splits)
  have "(c # a) @ sep @ b = ((c # a) @ butlast sep) @ (last sep # b)"
    using assms(2) by simp
  moreover have "length sep \<le> length ((c # a) @ butlast sep)" by simp
  ultimately have "startswith sep ((c # a) @ sep @ b) = startswith sep ((c # a) @ butlast sep)"
    using startswith_append by metis
  with ns have "\<not> startswith sep (c # a @ sep @ b)" by simp
  with Cons.IH [OF nc] show ?case by simp
qed

lemma rstrip_no_trailing_space:
  assumes "s \<noteq> []" "\<not> is_space (last s)"
  shows "rstrip s = s"
proof -
  from assms(1) obtain ys y where s: "s = ys @ [y]" by (cases s rule: rev_cases) auto
  with assms(2) have "\<not> is_space y" by simp
  then show ?thesis by (simp add: rstrip_def s)
qed

text \<open>
  A rename line \<open>XY a -> b\<close> whose source \<open>a\<close> holds no separator, also not across
  its end, and whose destination \<open>b\<close> does not end in white space adds the path of
  \<open>b\<close> to the change set and nothing else.
\<close>

lemma rename_destination_kept:
  assumes code: "length code = 3"
      and first: "\<not> contains '' -> '' (a @ '' ->'')"
      and b: "b \<noteq> []" "\<not> is_space (last b)"
  shows "changed_loop [code @ a @ '' -> '' @ b] S = insert (Path (strip b)) S"
proof -
  let ?line = "code @ a @ '' -> '' @ b"
  from b have "rstrip ?line = ?line"
    by (intro rstrip_no_trailing_space) simp_all
  moreover have "?line \<noteq> []" using b by simp
  moreover from code have "drop 3 ?line = a @ '' -> '' @ b" by simp
  moreover from find_sub_first [of "'' -> ''" a b] first
  have "find_sub '' -> '' (a @ '' -> '' @ b) = Some (length a)" by simp
  ultimately show ?thesis
    using code by (simp add: Let_def status_path_def status_payload_def contains_def split_once_def)
qed

text \<open>
  Claim C5 on the status line that git prints when a file named \<open>x -> y\<close> is renamed
  to \<open>z\<close>. Git quotes a name that holds a space, so the line is
  \<open>R  "x -> y" -> z\<close>. The parser cuts the payload at the first separator, inside the
  quoted source name: it puts the path \<open>y" -> z\<close> in the change set and not the
  destination \<open>z\<close>.
\<close>

theorem rename_source_with_separator:
  "parse_status ''R  \"x -> y\" -> z'' = {[''y\" -> z'']} \<and>
   Path ''z'' = [''z''] \<and> [''z''] \<notin> parse_status ''R  \"x -> y\" -> z''"
  by (simp add: status_eval)

text \<open>
  Claim C10: the summary of a work item reports as \<open>changed_files_count\<close> the size of
  the set of paths parsed from the status listing and as \<open>kept_files_count\<close> the size
  of the kept set; the first set is included in the second and the first count is at
  most the second.
\<close>

theorem changed_count_le_kept:
  "case item_summary fs repo n m export_dir repo_dir (parse_status status) cloned copied of
     (keep_paths, summary) \<Rightarrow>
       parse_status status \<subseteq> keep_paths \<and>
       map_of summary ''changed_files_count'' = Some (JInt (int (card (parse_status status)))) \<and>
       map_of summary ''kept_files_count'' = Some (JInt (int (card keep_paths))) \<and>
       card (parse_status status) \<le> card keep_paths"
  by (simp add: item_summary_def summary_json_def Let_def card_mono
        finite_parse_status finite_collect_special_files)

lemma path_name_rel:
  assumes "path_under d p"
  shows "path_name p = path_name (drop (length d) p) \<or>
      ((path_name p = ''/'' \<or> path_name p = ''//'') \<and> path_name (drop (length d) p) = [])"
proof (cases "length p = 1")
  case True
  with assms have "d = []" by (simp add: path_under_def)
  then show ?thesis by simp
next
  case False
  define rel where "rel = drop (length d) p"
  from assms have rel_ne: "rel \<noteq> []" and p_ne: "p \<noteq> []"
    by (auto simp: path_under_def rel_def)
  from assms have last_eq: "last rel = last p"
    by (simp add: path_under_def rel_def)
  from False p_ne have np: "path_name p = last p"
    by (simp add: path_name_def)
  show ?thesis
  proof (cases "length rel = 1 \<and> is_absolute rel")
    case True
    then obtain x where x: "rel = [x]" by (cases rel) auto
    with True have "x = ''/'' \<or> x = ''//''" by (simp add: is_absolute_def)
    moreover from x last_eq np have "path_name p = x" by simp
    moreover from True have "path_name rel = []" by (simp add: path_name_def)
    ultimately show ?thesis unfolding rel_def by blast
  next
    case False
    with rel_ne have "path_name rel = last rel" by (auto simp: path_name_def)
    with last_eq np show ?thesis unfolding rel_def by simp
  qed
qed

lemma not_special_name:
  assumes "name = [] \<or> name = ''/'' \<or> name = ''//''"
  shows "name \<noteq> ''Dockerfile''" "\<not> startswith ''Dockerfile.'' name"
    "\<not> startswith ''test'' (lower name)" "suffix_of name \<noteq> ''.py''"
  using assms by (auto simp: startswith_def lower_def lower_char_def suffix_of_def)

lemma special_cond_eq:
  assumes "path_under d p"
  shows "is_special (drop (length d) p) \<longleftrightarrow>
     (path_name p = ''Dockerfile'' \<or> startswith ''Dockerfile.'' (path_name p))
     \<or> (startswith ''test'' (lower (path_name p)) \<and> suffix_of (path_name p) = ''.py'')
     \<or> (drop (length d) p \<noteq> [] \<and> hd (drop (length d) p) = ''tests''
          \<and> suffix_of (path_name p) = ''.py'')"
  using path_name_rel [OF assms]
proof
  assume "path_name p = path_name (drop (length d) p)"
  then show ?thesis by (simp add: is_special_def Let_def)
next
  assume a: "(path_name p = ''/'' \<or> path_name p = ''//'') \<and> path_name (drop (length d) p) = []"
  then have 1: "path_name p = [] \<or> path_name p = ''/'' \<or> path_name p = ''//''" by blast
  from a have 2: "path_name (drop (length d) p) = [] \<or> path_name (drop (length d) p) = ''/''
     \<or> path_name (drop (length d) p) = ''//''" by blast
  show ?thesis
    using not_special_name [OF 1] not_special_name [OF 2]
    by (simp add: is_special_def Let_def)
qed

lemma special_loop_eq:
  assumes "\<forall>p \<in> set ps. path_under d p"
  shows "special_loop fs d ps keep =
     keep \<union> set (filter is_special (map (drop (length d)) (filter (is_file fs) ps)))"
  using assms
proof (induction ps arbitrary: keep)
  case Nil
  then show ?case by simp
next
  case (Cons p ps)
  then have u: "path_under d p" by simp
  from Cons have ih: "\<And>keep. special_loop fs d ps keep =
     keep \<union> set (filter is_special (map (drop (length d)) (filter (is_file fs) ps)))"
    by simp
  show ?case
    using special_cond_eq [OF u]
    by (auto simp: ih Let_def)
qed

lemma rglob_all_under: "\<forall>p \<in> set (rglob_all fs d). path_under d p"
  by (simp add: rglob_all_def)

lemma is_file_key: "is_file fs p \<Longrightarrow> p \<in> set (map fst fs)"
  by (auto simp: is_file_def split: option.splits dest: map_of_SomeD intro: rev_image_eqI)

lemma path_under_append: "path_under d (d @ rel) \<longleftrightarrow> rel \<noteq> []"
  by (simp add: path_under_def)

lemma path_under_split:
  "path_under d p \<Longrightarrow> p = d @ drop (length d) p \<and> drop (length d) p \<noteq> []"
  by (metis path_under_def append_take_drop_id drop_eq_Nil2 not_le)

text \<open>
  Claim C8: a path \<open>rel\<close>, relative to the working tree, is in the special-file set of
  the tree exactly when the tree is a directory, \<open>rel\<close> names something below it, the
  file system holds a regular file there, and \<open>rel\<close> is special: its name is
  \<open>Dockerfile\<close> or starts with \<open>Dockerfile.\<close>; or its name starts with \<open>test\<close>, in any
  letter case, and has the suffix \<open>.py\<close>; or its first component is \<open>tests\<close> and its
  name has the suffix \<open>.py\<close>. So every special regular file of the tree is selected,
  and nothing else is: no directory, no file outside the tree, no file that is not
  special.
\<close>

theorem special_files_exact:
  "rel \<in> collect_special_files fs repo_dir \<longleftrightarrow>
     is_dir fs repo_dir \<and> rel \<noteq> [] \<and> is_file fs (repo_dir @ rel) \<and> is_special rel"
proof
  assume "rel \<in> collect_special_files fs repo_dir"
  then obtain p where p: "p \<in> set (rglob_all fs repo_dir)" "is_file fs p"
    "rel = drop (length repo_dir) p" "is_special rel"
    by (auto simp: collect_special_files_def special_loop_eq [OF rglob_all_under])
  from p(1) have d: "is_dir fs repo_dir" and u: "path_under repo_dir p"
    by (auto simp: rglob_all_def split: if_splits)
  from path_under_split [OF u] p(3) have e: "repo_dir @ rel = p" and ne: "rel \<noteq> []"
    by simp_all
  from p(2) e have "is_file fs (repo_dir @ rel)" by simp
  with d ne p(4)
  show "is_dir fs repo_dir \<and> rel \<noteq> [] \<and> is_file fs (repo_dir @ rel) \<and> is_special rel"
    by simp
next
  assume a: "is_dir fs repo_dir \<and> rel \<noteq> [] \<and> is_file fs (repo_dir @ rel) \<and> is_special rel"
  then have "repo_dir @ rel \<in> set (rglob_all fs repo_dir)"
    by (simp add: rglob_all_def path_under_append is_file_key del: set_map)
  moreover have "drop (length repo_dir) (repo_dir @ rel) = rel" by simp
  ultimately have "rel \<in> set (filter is_special
            (map (drop (length repo_dir)) (filter (is_file fs) (rglob_all fs repo_dir))))"
    using a by (auto simp: image_iff intro!: bexI [of _ "repo_dir @ rel"])
  then show "rel \<in> collect_special_files fs repo_dir"
    by (simp add: collect_special_files_def special_loop_eq [OF rglob_all_under])
qed

text \<open>
  On the tree of the scenario: the \<open>Dockerfile\<close> and the test file are selected, the
  source file, the directory \<open>tests\<close> and a test file that is not there are not.
\<close>

theorem special_files_exact_witness:
  "[''Dockerfile''] \<in> collect_special_files demo_repo [''/'', ''r'']
   \<and> [''tests'', ''test_new.py''] \<in> collect_special_files demo_repo [''/'', ''r'']
   \<and> [''src'', ''a.py''] \<notin> collect_special_files demo_repo [''/'', ''r'']
   \<and> [''tests''] \<notin> collect_special_files demo_repo [''/'', ''r'']
   \<and> [''test_gone.py''] \<notin> collect_special_files demo_repo [''/'', ''r'']"
proof -
  let ?R = "[''/'', ''r'']"
  have d: "is_dir demo_repo ?R" by (simp add: demo_repo_def is_dir_def)
  have 1: "is_file demo_repo (?R @ [''Dockerfile'']) \<and> is_special [''Dockerfile'']"
    by code_simp
  have 2: "is_file demo_repo (?R @ [''tests'', ''test_new.py'']) \<and>
           is_special [''tests'', ''test_new.py'']"
    by code_simp
  have 3: "\<not> is_special [''src'', ''a.py'']" by code_simp
  have 4: "\<not> is_file demo_repo (?R @ [''tests''])" by code_simp
  have 5: "\<not> is_file demo_repo (?R @ [''test_gone.py''])" by code_simp
  show ?thesis
    using d 1 2 3 4 5
      special_files_exact [of "[''Dockerfile'']" demo_repo ?R]
      special_files_exact [of "[''tests'', ''test_new.py'']" demo_repo ?R]
      special_files_exact [of "[''src'', ''a.py'']" demo_repo ?R]
      special_files_exact [of "[''tests'']" demo_repo ?R]
      special_files_exact [of "[''test_gone.py'']" demo_repo ?R]
    by simp
qed

text \<open>
  The scenario of the specification: the status shows \<open>src/a.py\<close> modified and
  \<open>tests/test_new.py\<close> untracked, the tree also holds a \<open>Dockerfile\<close>; the change set
  is these three paths.
\<close>

lemma scenario_change_set:
  "parse_status ('' M src/a.py'' @ [CHR 0x0A] @ ''?? tests/test_new.py'' @ [CHR 0x0A])
     \<union> collect_special_files demo_repo [''/'', ''r''] = demo_keep"
  by code_simp

section \<open>Properties of the bundle assembler\<close>








section \<open>How the operations change the file system\<close>

lemma evolves_same: "evolves s s' W \<Longrightarrow> p \<notin> W \<Longrightarrow> map_of s' p = map_of s p"
  by (simp add: evolves_def)

lemma evolves_dir: "evolves s s' W \<Longrightarrow> map_of s p = Some Dir \<Longrightarrow> map_of s' p = Some Dir"
  by (simp add: evolves_def)

lemma evolves_file: "evolves s s' W \<Longrightarrow> is_file s p \<Longrightarrow> is_file s' p"
  by (simp add: evolves_def)

lemma evolves_new_dir:
  "evolves s s' W \<Longrightarrow> map_of s' p = Some Dir \<Longrightarrow> map_of s p = Some Dir \<or> map_of s p = None"
  by (simp add: evolves_def)

lemma evolves_keys:
  "evolves s s' W \<Longrightarrow> \<exists>ks. map fst s' = map fst s @ ks \<and> set ks \<subseteq> W"
  by (simp add: evolves_def)

lemma evolves_refl: "evolves s s W"
  by (simp add: evolves_def)

lemma evolves_mono: "evolves s s' W \<Longrightarrow> W \<subseteq> W' \<Longrightarrow> evolves s s' W'"
  unfolding evolves_def by (meson subsetD subset_trans)

lemma evolves_trans:
  assumes "evolves s s1 W1" "evolves s1 s2 W2"
  shows "evolves s s2 (W1 \<union> W2)"
proof -
  from evolves_keys [OF assms(1)] evolves_keys [OF assms(2)]
  obtain k1 k2 where k: "map fst s1 = map fst s @ k1" "set k1 \<subseteq> W1"
     "map fst s2 = map fst s1 @ k2" "set k2 \<subseteq> W2"
    by blast
  then have "map fst s2 = map fst s @ (k1 @ k2) \<and> set (k1 @ k2) \<subseteq> W1 \<union> W2" by auto
  then have keys: "\<exists>ks. map fst s2 = map fst s @ ks \<and> set ks \<subseteq> W1 \<union> W2" by blast
  have dirs: "map_of s p = Some Dir \<or> map_of s p = None" if "map_of s2 p = Some Dir" for p
  proof -
    from that assms(2) have "map_of s1 p = Some Dir \<or> map_of s1 p = None"
      by (rule evolves_new_dir [rotated])
    then show ?thesis
    proof
      assume "map_of s1 p = Some Dir" with assms(1) show ?thesis by (rule evolves_new_dir)
    next
      assume n: "map_of s1 p = None"
      show ?thesis
      proof (cases "map_of s p")
        case None then show ?thesis by simp
      next
        case (Some nd)
        show ?thesis
        proof (cases nd)
          case Dir with Some show ?thesis by simp
        next
          case (File c)
          with Some have "is_file s p" by (simp add: is_file_def)
          with assms(1) have "is_file s1 p" by (rule evolves_file)
          with n show ?thesis by (simp add: is_file_def)
        qed
      qed
    qed
  qed
  show ?thesis
    unfolding evolves_def
  proof (intro conjI allI impI)
    fix p assume "p \<notin> W1 \<union> W2"
    then show "map_of s2 p = map_of s p"
      using evolves_same [OF assms(1), of p] evolves_same [OF assms(2), of p] by simp
  next
    fix p assume "map_of s p = Some Dir"
    then show "map_of s2 p = Some Dir"
      using evolves_dir [OF assms(1)] evolves_dir [OF assms(2)] by simp
  next
    fix p assume "is_file s p"
    then show "is_file s2 p"
      using evolves_file [OF assms(1)] evolves_file [OF assms(2)] by simp
  next
    fix p assume "map_of s2 p = Some Dir"
    then show "map_of s p = Some Dir \<or> map_of s p = None" by (rule dirs)
  next
    show "\<exists>ks. map fst s2 = map fst s @ ks \<and> set ks \<subseteq> W1 \<union> W2" by (rule keys)
  qed
qed

lemma evolves_is_dir:
  assumes "evolves s s' W" "map_of s p \<noteq> None"
  shows "is_dir s' p \<longleftrightarrow> is_dir s p"
  using evolves_dir [OF assms(1), of p] evolves_new_dir [OF assms(1), of p] assms(2)
  by (auto simp: is_dir_def)

lemma write_file_Inr:
  assumes "write_file s p c = Inr s'"
  shows "s' = AList.update p (File c) s" "map_of s p \<noteq> Some Dir"
        "map_of s (butlast p) = Some Dir"
  using assms
  by (auto simp: write_file_def split: option.splits node.splits)

lemma update_file_evolves:
  assumes "map_of s p \<noteq> Some Dir"
  shows "evolves s (AList.update p (File c) s) {p}"
  using assms
  unfolding evolves_def
  by (auto simp: update_conv' is_file_def update_keys split: option.splits node.splits)


lemma copy2_Inr:
  assumes "copy2 s src dst = Inr s'"
  obtains c where "map_of s src = Some (File c)"
    "s' = AList.update (copy2_target s src dst) (File c) s"
    "map_of s (copy2_target s src dst) \<noteq> Some Dir"
    "map_of s (butlast (copy2_target s src dst)) = Some Dir"
    "src \<noteq> copy2_target s src dst"
  using assms write_file_Inr
  by (auto simp: copy2_def Let_def path_exists_def split: option.splits node.splits if_splits)

lemma copy2_evolves:
  assumes "copy2 s src dst = Inr s'"
  shows "evolves s s' {copy2_target s src dst}"
    and "map_of s' (copy2_target s src dst) = map_of s src"
    and "is_file s src"
  using assms
  by (auto elim!: copy2_Inr simp: update_file_evolves update_conv' is_file_def)



section \<open>Properties of the flattening loop\<close>

lemma copy2_target_cases:
  "copy2_target s src dst = dst \<or> copy2_target s src dst = dst @ [path_name src]"
  by (simp add: copy2_target_def)

lemma flatten_seen_skip:
  "path_name t2 \<in> seen \<Longrightarrow>
   flatten_tests s b e (mid @ t2 # post) seen n = flatten_tests s b e (mid @ post) seen n"
proof (induction mid arbitrary: s seen n)
  case Nil
  then show ?case by (simp add: Let_def)
next
  case (Cons t mid)
  show ?case
    by (auto simp: Let_def Cons err_bind_def split: sum.splits)
qed

lemma flatten_skip_later:
  assumes "is_file s t1" "path_name t2 = path_name t1"
  shows "flatten_tests s b e (pre @ t1 # mid @ t2 # post) seen n =
         flatten_tests s b e (pre @ t1 # mid @ post) seen n"
  using assms(1)
proof (induction pre arbitrary: s seen n)
  case Nil
  then show ?case
    using assms(2) by (auto simp: Let_def flatten_seen_skip err_bind_def split: sum.splits)
next
  case (Cons t pre)
  have keep: "is_file s2 t1"
    if "copy2 s t d1 = Inr s1" "copy2 s1 t d2 = Inr s2" for s1 s2 d1 d2
    using that Cons.prems copy2_evolves(1) evolves_file by blast
  show ?case
    using Cons.prems keep
    by (auto simp: Let_def Cons.IH err_bind_def split: sum.splits)
qed

lemma flatten_evolves:
  assumes "flatten_tests s b e ts seen n = Inr (s', n')"
  shows "evolves s s' (\<Union>t \<in> {t \<in> set ts. path_name t \<notin> seen}. flat_targets b e (path_name t))"
  using assms
proof (induction ts arbitrary: s seen n)
  case Nil
  then show ?case by (simp add: evolves_refl)
next
  case (Cons t ts)
  let ?nm = "path_name t"
  let ?W = "\<lambda>ts seen. (\<Union>t \<in> {t \<in> set ts. path_name t \<notin> seen}. flat_targets b e (path_name t))"
  have sub: "?W ts seen' \<subseteq> ?W (t # ts) seen" if "seen \<subseteq> seen'" for seen'
    using that by auto
  show ?case
  proof (cases "is_file s t \<and> ?nm \<notin> seen")
    case False
    with Cons.prems have "flatten_tests s b e ts seen n = Inr (s', n')"
      by (auto simp: Let_def split: if_splits)
    from Cons.IH [OF this] show ?thesis
      by (rule evolves_mono) (rule sub, simp)
  next
    case True
    with Cons.prems obtain s1 s2 where
      c1: "copy2 s t (b @ [?nm]) = Inr s1" and c2: "copy2 s1 t (e @ [?nm]) = Inr s2"
      and r: "flatten_tests s2 b e ts (insert ?nm seen) (Suc n) = Inr (s', n')"
      by (auto simp: Let_def err_bind_eq_Inr)
    have t1: "copy2_target s t (b @ [?nm]) \<in> flat_targets b e ?nm"
      using copy2_target_cases [of s t "b @ [?nm]"] by (auto simp: flat_targets_def)
    have t2: "copy2_target s1 t (e @ [?nm]) \<in> flat_targets b e ?nm"
      using copy2_target_cases [of s1 t "e @ [?nm]"] by (auto simp: flat_targets_def)
    have e1: "evolves s s1 (flat_targets b e ?nm)"
      by (rule evolves_mono [OF copy2_evolves(1) [OF c1]]) (use t1 in simp)
    have e2: "evolves s1 s2 (flat_targets b e ?nm)"
      by (rule evolves_mono [OF copy2_evolves(1) [OF c2]]) (use t2 in simp)
    have e3: "evolves s2 s' (?W ts (insert ?nm seen))" by (rule Cons.IH [OF r])
    have "evolves s s' (flat_targets b e ?nm \<union> flat_targets b e ?nm \<union> ?W ts (insert ?nm seen))"
      by (rule evolves_trans [OF evolves_trans [OF e1 e2] e3])
    then show ?thesis
      by (rule evolves_mono) (use True sub [of "insert ?nm seen"] in auto)
  qed
qed

lemma fnmatch_not_dirs:
  assumes "fnmatch_test_py nm"
  shows "nm \<noteq> ''files''" "nm \<noteq> ''bundle''"
  using assms by (auto simp: fnmatch_test_py_def startswith_def)

lemma flat_targets_not_under_files:
  assumes "nm \<noteq> ''files''" "q \<in> flat_targets (e @ [''bundle'']) e nm"
  shows "\<not> path_under (e @ [''files'']) q"
  using assms by (auto simp: flat_targets_def path_under_def)

lemma flat_targets_other_name:
  assumes "nm \<noteq> nm'"
  shows "e @ [''bundle'', nm] \<notin> flat_targets (e @ [''bundle'']) e nm'"
        "e @ [nm] \<notin> flat_targets (e @ [''bundle'']) e nm'"
  using assms by (auto simp: flat_targets_def)

lemma flatten_first_content:
  assumes ts: "\<forall>t \<in> set (pre @ t1 # rest).
                 path_under (e @ [''files'']) t \<and> fnmatch_test_py (path_name t)"
      and new: "path_name t1 \<notin> seen"
      and first: "\<forall>t \<in> set pre. is_file s t \<longrightarrow> path_name t \<noteq> path_name t1"
      and isf: "is_file s t1"
      and nd: "\<not> is_dir s (e @ [''bundle'', path_name t1])" "\<not> is_dir s (e @ [path_name t1])"
      and run: "flatten_tests s (e @ [''bundle'']) e (pre @ t1 # rest) seen n = Inr (s', n')"
  shows "map_of s' (e @ [''bundle'', path_name t1]) = map_of s t1 \<and>
         map_of s' (e @ [path_name t1]) = map_of s t1"
  using ts new first isf nd run
proof (induction pre arbitrary: s seen n)
  case Nil
  let ?nm = "path_name t1" and ?b = "e @ [''bundle'']"
  from Nil obtain s1 s2 where
      c1: "copy2 s t1 (?b @ [?nm]) = Inr s1" and c2: "copy2 s1 t1 (e @ [?nm]) = Inr s2"
      and r: "flatten_tests s2 ?b e rest (insert ?nm seen) (Suc n) = Inr (s', n')"
    by (auto simp: Let_def err_bind_eq_Inr)
  from Nil.prems(5) have tg1: "copy2_target s t1 (?b @ [?nm]) = ?b @ [?nm]"
    by (simp add: copy2_target_def)
  note e1 = copy2_evolves [OF c1, unfolded tg1]
  have "map_of s1 (e @ [?nm]) = map_of s (e @ [?nm])"
    by (rule evolves_same [OF e1(1)]) simp
  with Nil.prems(6) have tg2: "copy2_target s1 t1 (e @ [?nm]) = e @ [?nm]"
    by (simp add: copy2_target_def is_dir_def)
  note e2 = copy2_evolves [OF c2, unfolded tg2]
  from Nil.prems(1) have "\<not> path_under (e @ [''files'']) (?b @ [?nm])"
    by (simp add: path_under_def)
  with Nil.prems(1) have "t1 \<noteq> ?b @ [?nm]" by auto
  then have src1: "map_of s1 t1 = map_of s t1"
    using evolves_same [OF e1(1), of t1] by simp
  have b2: "map_of s2 (?b @ [?nm]) = map_of s1 (?b @ [?nm])"
    by (rule evolves_same [OF e2(1)]) simp
  let ?W = "(\<Union>t \<in> {t \<in> set rest. path_name t \<notin> insert ?nm seen}. flat_targets ?b e (path_name t))"
  have e3: "evolves s2 s' ?W" by (rule flatten_evolves [OF r])
  have "?b @ [?nm] \<notin> ?W" "e @ [?nm] \<notin> ?W"
    using flat_targets_other_name [of ?nm _ e] by auto
  then have "map_of s' (?b @ [?nm]) = map_of s2 (?b @ [?nm])"
    "map_of s' (e @ [?nm]) = map_of s2 (e @ [?nm])"
    using evolves_same [OF e3] by simp_all
  with e1(2) e2(2) src1 b2 show ?case by simp
next
  case (Cons p pre)
  let ?nm = "path_name t1" and ?b = "e @ [''bundle'']" and ?pn = "path_name p"
  have ih: "map_of s' (e @ [''bundle'', ?nm]) = map_of sa t1 \<and> map_of s' (e @ [?nm]) = map_of sa t1"
    if "?nm \<notin> seena" "\<forall>t \<in> set pre. is_file sa t \<longrightarrow> path_name t \<noteq> ?nm" "is_file sa t1"
       "\<not> is_dir sa (e @ [''bundle'', ?nm])" "\<not> is_dir sa (e @ [?nm])"
       "flatten_tests sa ?b e (pre @ t1 # rest) seena na = Inr (s', n')" for sa seena na
    using Cons.IH [OF _ that] Cons.prems(1) by simp
  show ?case
  proof (cases "is_file s p \<and> ?pn \<notin> seen")
    case False
    with Cons.prems(7) have "flatten_tests s ?b e (pre @ t1 # rest) seen n = Inr (s', n')"
      by (auto simp: Let_def split: if_splits)
    with Cons.prems show ?thesis by (intro ih) simp_all
  next
    case True
    with Cons.prems(7) obtain s1 s2 where
      c1: "copy2 s p (?b @ [?pn]) = Inr s1" and c2: "copy2 s1 p (e @ [?pn]) = Inr s2"
      and r: "flatten_tests s2 ?b e (pre @ t1 # rest) (insert ?pn seen) (Suc n) = Inr (s', n')"
      by (auto simp: Let_def err_bind_eq_Inr)
    from True Cons.prems(3) have ne: "?nm \<noteq> ?pn" by auto
    from Cons.prems(1) have pnf: "?pn \<noteq> ''files''" using fnmatch_not_dirs(1) by auto
    have t1: "copy2_target s p (?b @ [?pn]) \<in> flat_targets ?b e ?pn"
      using copy2_target_cases [of s p "?b @ [?pn]"] by (auto simp: flat_targets_def)
    have t2: "copy2_target s1 p (e @ [?pn]) \<in> flat_targets ?b e ?pn"
      using copy2_target_cases [of s1 p "e @ [?pn]"] by (auto simp: flat_targets_def)
    have ev: "evolves s s2 (flat_targets ?b e ?pn)"
      using evolves_trans [OF evolves_mono [OF copy2_evolves(1) [OF c1], of "flat_targets ?b e ?pn"]
              evolves_mono [OF copy2_evolves(1) [OF c2], of "flat_targets ?b e ?pn"]] t1 t2
      by simp
    have same_files: "map_of s2 q = map_of s q" if "path_under (e @ [''files'']) q" for q
      using evolves_same [OF ev, of q] flat_targets_not_under_files [OF pnf, of q e] that by blast
    have same_t: "map_of s2 t = map_of s t" if "t \<in> set (pre @ t1 # rest)" for t
      using same_files that Cons.prems(1) by auto
    have a: "?nm \<notin> insert ?pn seen" using ne Cons.prems(2) by simp
    have b: "\<forall>t \<in> set pre. is_file s2 t \<longrightarrow> path_name t \<noteq> ?nm"
      using Cons.prems(3) same_t by (simp add: is_file_def)
    have c: "is_file s2 t1" using Cons.prems(4) ev evolves_file by blast
    have d: "\<not> is_dir s2 (e @ [''bundle'', ?nm])" "\<not> is_dir s2 (e @ [?nm])"
      using evolves_same [OF ev] flat_targets_other_name [OF ne, of e] Cons.prems(5,6)
      by (simp_all add: is_dir_def)
    from ih [OF a b c d r] same_t [of t1] show ?thesis by simp
  qed
qed

lemma path_name_under:
  assumes "path_under d t" "d \<noteq> []"
  shows "path_name t = last t"
proof -
  from assms have "2 \<le> length t" by (cases d) (auto simp: path_under_def)
  then show ?thesis by (auto simp: path_name_def)
qed

lemma rglob_test_py_elems:
  assumes "t \<in> set (rglob_test_py fs (e @ [''files'']))"
  shows "path_under (e @ [''files'']) t \<and> fnmatch_test_py (path_name t)"
proof -
  from assms have u: "path_under (e @ [''files'']) t" and f: "fnmatch_test_py (last t)"
    by (auto simp: rglob_test_py_def rglob_all_def split: if_splits)
  from path_name_under [OF u] f u show ?thesis by simp
qed

text \<open>
  Claim C3: the flattening loop runs over the test files below \<open>files/\<close> in sorted
  path order. Let \<open>t1\<close> come before \<open>t2\<close> in that order, let both have one name, let
  \<open>t1\<close> be a regular file and no regular file before it have this name, and let no
  directory of this name lie in \<open>bundle/\<close> or in the export root. Then \<open>t1\<close> is not
  greater than \<open>t2\<close>; the loop does exactly what it does on the list without \<open>t2\<close>, so
  \<open>t2\<close> is passed over without an error; and when the loop ends without an error, the
  entries of this name in \<open>bundle/\<close> and in the export root hold the content of
  \<open>t1\<close>.
\<close>

theorem flatten_first_wins:
  assumes order: "sort (rglob_test_py fs (e @ [''files''])) = pre @ t1 # mid @ t2 # post"
      and isf: "is_file fs t1"
      and same: "path_name t2 = path_name t1"
      and first: "\<forall>t \<in> set pre. is_file fs t \<longrightarrow> path_name t \<noteq> path_name t1"
      and nd: "\<not> is_dir fs (e @ [''bundle'', path_name t1])" "\<not> is_dir fs (e @ [path_name t1])"
  shows "t1 \<le> t2 \<and>
     flatten_all fs e = flatten_tests fs (e @ [''bundle'']) e (pre @ t1 # mid @ post) {} 0 \<and>
     (\<forall>fs' n. flatten_all fs e = Inr (fs', n) \<longrightarrow>
        map_of fs' (e @ [''bundle'', path_name t1]) = map_of fs t1 \<and>
        map_of fs' (e @ [path_name t1]) = map_of fs t1)"
proof (intro conjI allI impI)
  have "sorted (sort (rglob_test_py fs (e @ [''files''])))" by simp
  then show "t1 \<le> t2" unfolding order by (auto simp: sorted_append)
next
  show "flatten_all fs e = flatten_tests fs (e @ [''bundle'']) e (pre @ t1 # mid @ post) {} 0"
    unfolding flatten_all_def order by (rule flatten_skip_later [OF isf same])
next
  fix fs' n
  assume run: "flatten_all fs e = Inr (fs', n)"
  have "\<forall>t \<in> set (sort (rglob_test_py fs (e @ [''files'']))).
          path_under (e @ [''files'']) t \<and> fnmatch_test_py (path_name t)"
    using rglob_test_py_elems by simp
  then have ts: "\<forall>t \<in> set (pre @ t1 # (mid @ t2 # post)).
          path_under (e @ [''files'']) t \<and> fnmatch_test_py (path_name t)"
    unfolding order by simp
  from run have run': "flatten_tests fs (e @ [''bundle'']) e (pre @ t1 # (mid @ t2 # post)) {} 0
      = Inr (fs', n)" unfolding flatten_all_def order by simp
  from flatten_first_content [OF ts _ first isf nd run']
  show "map_of fs' (e @ [''bundle'', path_name t1]) = map_of fs t1"
    and "map_of fs' (e @ [path_name t1]) = map_of fs t1" by simp_all
qed

lemmas flat_eval =
  demo_export_def rglob_test_py_def rglob_all_def is_dir_def is_file_def path_under_def
  fnmatch_test_py_def startswith_def endswith_def path_name_def is_absolute_def
  copy2_def copy2_target_def path_exists_def write_file_def Let_def

lemma demo_export_tests:
  "sort (rglob_test_py demo_export [''/'', ''o'', ''files'']) =
     [[''/'', ''o'', ''files'', ''extra'', ''test_x.py''],
      [''/'', ''o'', ''files'', ''tests'', ''test_x.py'']]"
  by code_simp

theorem flatten_first_wins_witness:
  "\<exists>fs' n.
     flatten_all demo_export [''/'', ''o''] = Inr (fs', n) \<and>
     n = 1 \<and>
     map_of fs' [''/'', ''o'', ''bundle'', ''test_x.py''] = Some (File (Text ''E'')) \<and>
     map_of fs' [''/'', ''o'', ''test_x.py''] = Some (File (Text ''E''))"
proof -
  let ?e = "[''/'', ''o'']"
  let ?t1 = "[''/'', ''o'', ''files'', ''extra'', ''test_x.py'']"
  let ?t2 = "[''/'', ''o'', ''files'', ''tests'', ''test_x.py'']"
  have order: "sort (rglob_test_py demo_export (?e @ [''files''])) = [] @ ?t1 # [] @ ?t2 # []"
    using demo_export_tests by simp
  have isf: "is_file demo_export ?t1" by (simp add: flat_eval)
  have same: "path_name ?t2 = path_name ?t1" by (simp add: flat_eval)
  have first: "\<forall>t \<in> set []. is_file demo_export t \<longrightarrow> path_name t \<noteq> path_name ?t1" by simp
  have nd: "\<not> is_dir demo_export (?e @ [''bundle'', path_name ?t1])"
    "\<not> is_dir demo_export (?e @ [path_name ?t1])" by (simp_all add: flat_eval)
  obtain fs' n where run: "flatten_all demo_export ?e = Inr (fs', n)" and n: "n = 1"
    using order unfolding flatten_all_def by (simp add: flat_eval)
  from flatten_first_wins [OF order isf same first nd] run
  have "map_of fs' (?e @ [''bundle'', path_name ?t1]) = map_of demo_export ?t1 \<and>
        map_of fs' (?e @ [path_name ?t1]) = map_of demo_export ?t1" by blast
  then have "map_of fs' [''/'', ''o'', ''bundle'', ''test_x.py''] = Some (File (Text ''E'')) \<and>
     map_of fs' [''/'', ''o'', ''test_x.py''] = Some (File (Text ''E''))"
    by (simp add: flat_eval)
  with run n show ?thesis by auto
qed

section \<open>Running the assembler again\<close>




















































section \<open>Vanished paths and the paths that remain\<close>




















end
